theory Spec2Isabelle
  imports Complex_Main "HOL-Library.AList"
begin

section \<open>Errors and numeric containers\<close>

text \<open>
  The C++ code signals failure by exceptions; the model returns them as values.
  \<^item> \<open>InvalidOrder\<close>: \<^verbatim>\<open>std::invalid_argument("Group order must be positive")\<close>
  \<^item> \<open>IndexOutOfRange\<close>: \<^verbatim>\<open>std::out_of_range("Character index out of range")\<close>
  \<^item> \<open>EmptyInput\<close>: \<^verbatim>\<open>std::invalid_argument("Empty projections")\<close>
  \<^item> \<open>InvalidInput\<close>: \<^verbatim>\<open>std::invalid_argument("Invalid samples or targets")\<close>
  \<^item> \<open>NotFitted\<close>: \<^verbatim>\<open>std::runtime_error("Model not fitted")\<close>
  \<^item> \<open>UnknownPatch\<close>: the \<^verbatim>\<open>std::out_of_range\<close> of \<^verbatim>\<open>unordered_map::at\<close>
  \<^item> \<open>DivisionByZero\<close>: an integer \<^verbatim>\<open>%\<close> whose divisor is zero
  \<^item> \<open>OutOfBounds\<close>: an index, a block or a dimension outside its container
    (an Eigen assertion, or an access beyond a \<^verbatim>\<open>std::vector\<close>)
  The last two are not exceptions of the C++ code: there the behaviour is undefined, and
  the model stops with the error instead of inventing a result.

  \<^verbatim>\<open>size_t\<close> is modelled by \<open>nat\<close>: the only arithmetic on it is \<^verbatim>\<open>j * k\<close> and
  \<^verbatim>\<open>i + rows - k\<close> on indices of matrices that exist in memory, which stay far below
  \<open>2^64\<close>. \<^verbatim>\<open>double\<close> and \<^verbatim>\<open>std::complex<double>\<close> are modelled by the real and the
  complex numbers, so every theorem below is about exact arithmetic: rounding, overflow to
  infinity and NaN are not modelled.
\<close>

datatype error =
    InvalidOrder
  | IndexOutOfRange
  | EmptyInput
  | InvalidInput
  | NotFitted
  | UnknownPatch
  | DivisionByZero
  | OutOfBounds

text \<open>A dense matrix: its rows, and the number of columns (kept for a matrix of no rows).\<close>

record 'a Matrix =
  data :: "'a list list"
  cols :: nat

definition rows :: "'a Matrix \<Rightarrow> nat" where
  "rows M = length (data M)"

text \<open>Every C++ matrix is rectangular.\<close>

definition wf_matrix :: "'a Matrix \<Rightarrow> bool" where
  "wf_matrix M = list_all (\<lambda>r. length r = cols M) (data M)"

text \<open>\<^verbatim>\<open>M(i, j)\<close>\<close>

definition coeff :: "'a Matrix \<Rightarrow> nat \<Rightarrow> nat \<Rightarrow> error + 'a" where
  "coeff M i j = (if i < rows M \<and> j < cols M then Inr (data M ! i ! j) else Inl OutOfBounds)"

text \<open>\<^verbatim>\<open>Matrix::Zero(r, c)\<close>\<close>

definition Zero :: "nat \<Rightarrow> nat \<Rightarrow> complex Matrix" where
  "Zero r c = \<lparr>data = replicate r (replicate c 0), cols = c\<rparr>"

text \<open>\<^verbatim>\<open>acc += w * M\<close>, which Eigen accepts for equal dimensions only.\<close>

definition add_scaled :: "complex Matrix \<Rightarrow> complex \<Rightarrow> complex Matrix \<Rightarrow> error + complex Matrix" where
  "add_scaled acc w M =
     (if rows acc = rows M \<and> cols acc = cols M
      then Inr \<lparr>data = map2 (\<lambda>ra rm. map2 (\<lambda>a m. a + w * m) ra rm) (data acc) (data M),
                cols = cols acc\<rparr>
      else Inl OutOfBounds)"

text \<open>\<^verbatim>\<open>M /= static_cast<double>(n)\<close>\<close>

definition div_scalar :: "complex Matrix \<Rightarrow> nat \<Rightarrow> complex Matrix" where
  "div_scalar M n = \<lparr>data = map (map (\<lambda>x. x / of_nat n)) (data M), cols = cols M\<rparr>"

text \<open>A loop whose body may fail stops at the first failure.\<close>

fun foldM :: "('a \<Rightarrow> 's \<Rightarrow> error + 's) \<Rightarrow> 'a list \<Rightarrow> 's \<Rightarrow> error + 's" where
  "foldM f [] s = Inr s"
| "foldM f (x # xs) s = (case f x s of Inl e \<Rightarrow> Inl e | Inr s' \<Rightarrow> foldM f xs s')"

fun mapM :: "('a \<Rightarrow> error + 'b) \<Rightarrow> 'a list \<Rightarrow> error + 'b list" where
  "mapM f [] = Inr []"
| "mapM f (x # xs) =
     (case f x of Inl e \<Rightarrow> Inl e
      | Inr y \<Rightarrow> (case mapM f xs of Inl e \<Rightarrow> Inl e | Inr ys \<Rightarrow> Inr (y # ys)))"

text \<open>
  Without \<^verbatim>\<open>USE_EIGEN3\<close> a matrix is a \<^verbatim>\<open>BasicMatrix\<close>, and \<^verbatim>\<open>M(i, j)\<close> reads
  \<^verbatim>\<open>data_[i * cols_ + j]\<close> with no check of \<open>i\<close> and \<open>j\<close> against the dimensions; the
  loops \<^verbatim>\<open>acc(i, c) += w * M(i, c)\<close> run over the dimensions of \<open>acc\<close>. A read at or
  beyond \<^verbatim>\<open>data_.size()\<close> is the error \<open>OutOfBounds\<close>.
\<close>

definition flat_read :: "'a Matrix \<Rightarrow> nat \<Rightarrow> nat \<Rightarrow> error + 'a" where
  "flat_read M i j =
     (let f = i * cols M + j
      in if f < rows M * cols M then Inr (data M ! (f div cols M) ! (f mod cols M))
         else Inl OutOfBounds)"

definition add_scaled_flat ::
  "complex Matrix \<Rightarrow> complex \<Rightarrow> complex Matrix \<Rightarrow> error + complex Matrix" where
  "add_scaled_flat acc w M =
     (case mapM (\<lambda>i. mapM (\<lambda>c. case flat_read M i c of Inl e \<Rightarrow> Inl e
                                   | Inr x \<Rightarrow> Inr (data acc ! i ! c + w * x))
                        [0..<cols acc]) [0..<rows acc] of
        Inl e \<Rightarrow> Inl e
      | Inr rs \<Rightarrow> Inr \<lparr>data = rs, cols = cols acc\<rparr>)"

section \<open>Cyclic group characters (cyclic\_group.cpp)\<close>

text \<open>
  Each function of this file has a branch for \<^verbatim>\<open>USE_EIGEN3\<close> and one without, and the
  file compiles either way. In \<^verbatim>\<open>reconstruct_from_characters\<close> and
  \<^verbatim>\<open>learn_character_weights\<close> the two branches differ, and the build is an argument.
  Elsewhere the two compute the same on rectangular matrices, and one definition stands
  for both.
\<close>

datatype build = USE_EIGEN3 | NO_EIGEN3

text \<open>The members \<^verbatim>\<open>n_\<close>, \<^verbatim>\<open>omega_\<close> and \<^verbatim>\<open>characters_\<close>.\<close>

record CyclicGroupCharacters =
  n_order :: nat
  omega :: complex
  characters :: "complex Matrix"

text \<open>
  \<^verbatim>\<open>characters_(j, k) = std::pow(omega_, static_cast<double>(j * k))\<close>: the exponent is a
  natural number, so the power is the repeated product.
\<close>

definition compute_character_table :: "nat \<Rightarrow> complex \<Rightarrow> complex Matrix" where
  "compute_character_table n w =
     \<lparr>data = map (\<lambda>j. map (\<lambda>k. w ^ (j * k)) [0..<n]) [0..<n], cols = n\<rparr>"

text \<open>The constructor; \<^verbatim>\<open>std::polar(1.0, t)\<close> is \<open>cis t\<close>.\<close>

definition construct :: "nat \<Rightarrow> error + CyclicGroupCharacters" where
  "construct n =
     (if n = 0 then Inl InvalidOrder
      else Inr \<lparr>n_order = n, omega = cis (2 * pi / real n),
                characters = compute_character_table n (cis (2 * pi / real n))\<rparr>)"

definition character :: "CyclicGroupCharacters \<Rightarrow> nat \<Rightarrow> nat \<Rightarrow> error + complex" where
  "character G j k =
     (if j \<ge> n_order G \<or> k \<ge> n_order G then Inl IndexOutOfRange
      else coeff (characters G) j k)"

text \<open>
  \<^verbatim>\<open>rotate\<close>: \<^verbatim>\<open>k % rows\<close> is evaluated after the \<^verbatim>\<open>k == 0\<close> return, whatever
  \<^verbatim>\<open>rows\<close> is.
\<close>

definition rotate_m :: "'a Matrix \<Rightarrow> nat \<Rightarrow> error + 'a Matrix" where
  "rotate_m V k =
     (if k = 0 then Inr V
      else if rows V = 0 then Inl DivisionByZero
      else (let k' = k mod rows V
            in Inr \<lparr>data = map (\<lambda>i. data V ! ((i + rows V - k') mod rows V)) [0..<rows V],
                     cols = cols V\<rparr>))"

definition project_step ::
  "CyclicGroupCharacters \<Rightarrow> complex Matrix \<Rightarrow> nat \<Rightarrow> nat \<Rightarrow> complex Matrix \<Rightarrow> error + complex Matrix" where
  "project_step G V j k proj =
     (case character G j k of Inl e \<Rightarrow> Inl e
      | Inr ch \<Rightarrow>
         (case rotate_m V k of Inl e \<Rightarrow> Inl e
          | Inr V_rotated \<Rightarrow> add_scaled proj (cnj ch) V_rotated))"

definition project_onto_character ::
  "CyclicGroupCharacters \<Rightarrow> complex Matrix \<Rightarrow> nat \<Rightarrow> error + complex Matrix" where
  "project_onto_character G V j =
     (if j \<ge> n_order G then Inl IndexOutOfRange
      else (let seq_len = rows V; d_model = cols V; n = min seq_len (n_order G)
            in case foldM (project_step G V j) [0..<n] (Zero seq_len d_model) of
                 Inl e \<Rightarrow> Inl e
               | Inr proj \<Rightarrow> Inr (div_scalar proj n)))"

definition decompose_into_characters ::
  "CyclicGroupCharacters \<Rightarrow> complex Matrix \<Rightarrow> error + complex Matrix list" where
  "decompose_into_characters G V =
     mapM (project_onto_character G V) [0..<min (rows V) (n_order G)]"

text \<open>
  With \<^verbatim>\<open>USE_EIGEN3\<close> the sum \<^verbatim>\<open>result += coefficients(j) * projections[j]\<close> asserts equal
  dimensions; without it the loops read \<^verbatim>\<open>projections[j](i, c)\<close> over the dimensions of
  \<^verbatim>\<open>projections[0]\<close>.
\<close>

definition reconstruct_from_characters ::
  "build \<Rightarrow> CyclicGroupCharacters \<Rightarrow> complex list \<Rightarrow> complex Matrix list
     \<Rightarrow> error + complex Matrix" where
  "reconstruct_from_characters b G coefficients projections =
     (if projections = [] then Inl EmptyInput
      else foldM (\<lambda>j result.
                    (case b of USE_EIGEN3 \<Rightarrow> add_scaled | NO_EIGEN3 \<Rightarrow> add_scaled_flat)
                      result (coefficients ! j) (projections ! j))
             [0..<min (length projections) (length coefficients)]
             (Zero (rows (projections ! 0)) (cols (projections ! 0))))"

text \<open>
  Closed forms used to state what the loops compute: the entry \<open>(i, c)\<close> of
  \<^verbatim>\<open>rotate(V, k)\<close> for \<open>k < rows V\<close>, the sum accumulated by the first \<open>m\<close> rounds of the
  loop of \<^verbatim>\<open>project_onto_character\<close>, and the projection that results.
\<close>

definition rotated_entry :: "'a Matrix \<Rightarrow> nat \<Rightarrow> nat \<Rightarrow> nat \<Rightarrow> 'a" where
  "rotated_entry V k i c = data V ! ((i + rows V - k) mod rows V) ! c"

definition projection_sum ::
  "CyclicGroupCharacters \<Rightarrow> complex Matrix \<Rightarrow> nat \<Rightarrow> nat \<Rightarrow> nat \<Rightarrow> nat \<Rightarrow> complex" where
  "projection_sum G V j m i c = (\<Sum>k<m. cnj (omega G ^ (j * k)) * rotated_entry V k i c)"

definition projection_entry ::
  "CyclicGroupCharacters \<Rightarrow> complex Matrix \<Rightarrow> nat \<Rightarrow> nat \<Rightarrow> nat \<Rightarrow> complex" where
  "projection_entry G V j i c =
     projection_sum G V j (min (rows V) (n_order G)) i c / of_nat (min (rows V) (n_order G))"

definition projection_matrix :: "CyclicGroupCharacters \<Rightarrow> complex Matrix \<Rightarrow> nat \<Rightarrow> complex Matrix" where
  "projection_matrix G V j =
     \<lparr>data = map (\<lambda>i. map (\<lambda>c. projection_entry G V j i c) [0..<cols V]) [0..<rows V],
      cols = cols V\<rparr>"

text \<open>
  The round trip of the completeness property:
  \<^verbatim>\<open>reconstruct_from_characters(ones(n), decompose_into_characters(V))\<close> for the group of
  order \<open>n\<close>.
\<close>

definition roundtrip :: "build \<Rightarrow> nat \<Rightarrow> complex Matrix \<Rightarrow> error + complex Matrix" where
  "roundtrip b n V =
     (case construct n of Inl e \<Rightarrow> Inl e
      | Inr G \<Rightarrow>
         (case decompose_into_characters G V of Inl e \<Rightarrow> Inl e
          | Inr projections \<Rightarrow> reconstruct_from_characters b G (replicate n 1) projections))"

text \<open>
  The projection as the header cyclic\_group.hpp documents it,
  \<open>(1/n) \<Sum>k<n. cnj (\<chi>\<^sub>j(g\<^sup>k)) * g\<^sup>k(V)\<close> over all \<open>n\<close> group elements, with \<open>g\<^sup>k(V)\<close> the
  rotation of \<open>V\<close> by \<open>k\<close> positions.
\<close>

definition documented_projection_entry ::
  "CyclicGroupCharacters \<Rightarrow> complex Matrix \<Rightarrow> nat \<Rightarrow> nat \<Rightarrow> nat \<Rightarrow> complex" where
  "documented_projection_entry G V j i c =
     (\<Sum>k<n_order G. cnj (omega G ^ (j * k)) *
                       data V ! ((i + rows V - k mod rows V) mod rows V) ! c)
     / of_nat (n_order G)"

text \<open>
  \<^verbatim>\<open>learn_character_weights\<close>. Entry \<open>k\<close> of a flattened matrix is read at row
  \<^verbatim>\<open>k / cols\<close> and column \<^verbatim>\<open>k % cols\<close>.
\<close>

definition flat_coeff :: "complex Matrix \<Rightarrow> nat \<Rightarrow> nat \<Rightarrow> error + complex" where
  "flat_coeff M width k =
     (if width = 0 then Inl DivisionByZero else coeff M (k div width) (k mod width))"

text \<open>
  The rows of \<open>A\<close> and the entries of \<open>b\<close> that sample \<open>i\<close> contributes: the loops fill the
  columns \<open>j < n\<close> one after the other, dividing by the sample's column count and reading
  \<^verbatim>\<open>projs[j]\<close> whether or not the decomposition has that many projections.
\<close>

definition sample_block ::
  "CyclicGroupCharacters \<Rightarrow> complex Matrix \<Rightarrow> complex Matrix \<Rightarrow> nat
     \<Rightarrow> error + (complex list list \<times> complex list)" where
  "sample_block G V T d =
     (case decompose_into_characters G V of Inl e \<Rightarrow> Inl e
      | Inr projs \<Rightarrow>
         (case mapM (\<lambda>j. mapM (\<lambda>k. if cols V = 0 then Inl DivisionByZero
                                      else if j < length projs
                                      then coeff (projs ! j) (k div cols V) (k mod cols V)
                                      else Inl OutOfBounds) [0..<d]) [0..<n_order G] of
            Inl e \<Rightarrow> Inl e
          | Inr columns \<Rightarrow>
             (case mapM (\<lambda>k. flat_coeff T (cols T) k) [0..<d] of
                Inl e \<Rightarrow> Inl e
              | Inr bs \<Rightarrow> Inr (map (\<lambda>k. map (\<lambda>col. col ! k) columns) [0..<d], bs))))"

definition assemble_character_system ::
  "CyclicGroupCharacters \<Rightarrow> complex Matrix list \<Rightarrow> complex Matrix list
     \<Rightarrow> error + (complex Matrix \<times> complex list)" where
  "assemble_character_system G V_samples targets =
     (if V_samples = [] \<or> length V_samples \<noteq> length targets then Inl InvalidInput
      else (let d = rows (V_samples ! 0) * cols (V_samples ! 0)
            in case mapM (\<lambda>i. sample_block G (V_samples ! i) (targets ! i) d)
                      [0..<length V_samples] of
                 Inl e \<Rightarrow> Inl e
               | Inr blocks \<Rightarrow>
                   Inr (\<lparr>data = concat (map fst blocks), cols = n_order G\<rparr>,
                        concat (map snd blocks))))"

text \<open>
  The solves of the Eigen library are not code of the repository: they are parameters,
  giving component \<open>i\<close> of the solution for a matrix and a right-hand side.
\<close>

type_synonym solver = "complex Matrix \<Rightarrow> complex list \<Rightarrow> nat \<Rightarrow> complex"

definition learn_character_weights ::
  "build \<Rightarrow> solver \<Rightarrow> CyclicGroupCharacters \<Rightarrow> complex Matrix list \<Rightarrow> complex Matrix list
     \<Rightarrow> error + complex list" where
  "learn_character_weights b bdcSvd_solve G V_samples targets =
     (case assemble_character_system G V_samples targets of Inl e \<Rightarrow> Inl e
      | Inr (A, rhs) \<Rightarrow>
         (case b of
            USE_EIGEN3 \<Rightarrow> Inr (map (bdcSvd_solve A rhs) [0..<n_order G])
          | NO_EIGEN3 \<Rightarrow> Inr (replicate (n_order G) 0)))"

text \<open>Dense linear algebra: the Eigen products, differences and \<^verbatim>\<open>squaredNorm\<close>.\<close>

definition mat_vec :: "complex Matrix \<Rightarrow> complex list \<Rightarrow> complex list" where
  "mat_vec A w = map (\<lambda>r. sum_list (map2 (*) r w)) (data A)"

definition vec_sub :: "complex list \<Rightarrow> complex list \<Rightarrow> complex list" where
  "vec_sub u v = map2 (-) u v"

definition squaredNorm :: "complex list \<Rightarrow> real" where
  "squaredNorm v = sum_list (map (\<lambda>x. (cmod x)\<^sup>2) v)"

definition adjoint :: "complex Matrix \<Rightarrow> complex Matrix" where
  "adjoint A =
     \<lparr>data = map (\<lambda>j. map (\<lambda>i. cnj (data A ! i ! j)) [0..<rows A]) [0..<cols A],
      cols = rows A\<rparr>"

definition mat_mul :: "complex Matrix \<Rightarrow> complex Matrix \<Rightarrow> complex Matrix" where
  "mat_mul A B =
     \<lparr>data = map (\<lambda>r. map (\<lambda>j. sum_list (map2 (*) r (map (\<lambda>rb. rb ! j) (data B))))
                           [0..<cols B]) (data A),
      cols = cols B\<rparr>"

definition add_to_diagonal :: "complex Matrix \<Rightarrow> real \<Rightarrow> complex Matrix" where
  "add_to_diagonal M x =
     \<lparr>data = map (\<lambda>i. (data M ! i)[i := data M ! i ! i + of_real x]) [0..<rows M],
      cols = cols M\<rparr>"

section \<open>The unified sheaf learner (unified\_sheaf\_learner.cpp)\<close>

text \<open>
  This file is modelled as compiled with \<^verbatim>\<open>USE_EIGEN3\<close>; without it the file does not
  compile (\<^verbatim>\<open>GluingSystemResult result;\<close> default-constructs a \<^verbatim>\<open>BasicMatrix\<close>, which
  has no default constructor). Console output in verbose mode is not modelled.

  An Eigen matrix or vector constructed from its dimensions alone holds coefficients that
  were never written: they are \<open>None\<close> until assigned. Where the program computes with
  such a coefficient it uses whatever the memory holds: that value is given, for each
  position, by a parameter \<open>unwritten\<close>, and the theorems hold for every such parameter.
\<close>

record PatchConfig =
  n_positions :: nat
  n_characters :: nat
  d_model :: nat

record Patch =
  name :: string
  V_samples :: "complex Matrix list"
  targets :: "complex Matrix list"
  config :: PatchConfig

record GluingConstraint =
  patch_1 :: string
  patch_2 :: string
  constraint_data_1 :: "complex Matrix"
  constraint_data_2 :: "complex Matrix"

record SheafSolution =
  weights :: "string \<rightharpoonup> complex Matrix"
  residual_error :: real
  converged :: bool

record SheafProblem =
  patches :: "Patch list"
  gluings :: "GluingConstraint list"

definition EPSILON :: real where
  "EPSILON = 1 / 10 ^ 12"

definition lambda_ridge :: real where
  "lambda_ridge = 1 / 10 ^ 8"

text \<open>
  The two maps of \<^verbatim>\<open>LocalSystemsResult\<close> are iterated over, so they are association lists
  with one entry for each key; \<^verbatim>\<open>targets\<close> is called \<open>target_vectors\<close> here.
\<close>

record LocalSystemsResult =
  matrices :: "complex option Matrix list"
  target_vectors :: "complex list list"
  patch_offsets :: "(string \<times> nat) list"
  patch_n_weights :: "(string \<times> nat) list"

record GluingSystemResult =
  A_gluing :: "complex option Matrix"
  b_gluing :: "complex list"

text \<open>The members \<^verbatim>\<open>verbose_\<close>, \<^verbatim>\<open>fitted_\<close>, \<^verbatim>\<open>solution_\<close> and \<^verbatim>\<open>patch_configs_\<close>.\<close>

record UnifiedSheafLearner =
  verbose :: bool
  fitted :: bool
  solution :: SheafSolution
  patch_configs :: "string \<rightharpoonup> PatchConfig"

text \<open>The constructor.\<close>

definition new_learner :: "bool \<Rightarrow> UnifiedSheafLearner" where
  "new_learner v =
     \<lparr>verbose = v, fitted = False,
      solution = \<lparr>weights = Map.empty, residual_error = 0, converged = False\<rparr>,
      patch_configs = Map.empty\<rparr>"

text \<open>A loop whose body may fail and changes the learner: the changes made before a
  failure stay.\<close>

fun foldSM ::
  "('a \<Rightarrow> 'r \<Rightarrow> 's \<Rightarrow> (error + 'r) \<times> 's) \<Rightarrow> 'a list \<Rightarrow> 'r \<Rightarrow> 's \<Rightarrow> (error + 'r) \<times> 's" where
  "foldSM f [] r s = (Inr r, s)"
| "foldSM f (x # xs) r s =
     (case f x r s of (Inl e, s') \<Rightarrow> (Inl e, s') | (Inr r', s') \<Rightarrow> foldSM f xs r' s')"

text \<open>\<^verbatim>\<open>m[key]\<close> on an \<^verbatim>\<open>unordered_map\<close> inserts a value-initialised entry for a missing
  key; \<^verbatim>\<open>m.at(key)\<close> throws.\<close>

definition subscript ::
  "(string \<rightharpoonup> PatchConfig) \<Rightarrow> string \<Rightarrow> PatchConfig \<times> (string \<rightharpoonup> PatchConfig)" where
  "subscript m k =
     (case m k of
        Some c \<Rightarrow> (c, m)
      | None \<Rightarrow> (\<lparr>n_positions = 0, n_characters = 0, d_model = 0\<rparr>,
                 m(k \<mapsto> \<lparr>n_positions = 0, n_characters = 0, d_model = 0\<rparr>)))"

definition at_key :: "(string \<times> 'v) list \<Rightarrow> string \<Rightarrow> error + 'v" where
  "at_key m k = (case map_of m k of None \<Rightarrow> Inl UnknownPatch | Some v \<Rightarrow> Inr v)"

definition feature_step ::
  "PatchConfig \<Rightarrow> complex Matrix list \<Rightarrow> nat \<times> nat \<Rightarrow> complex option list
     \<Rightarrow> error + complex option list" where
  "feature_step cfg projs pj feature_row =
     (case pj of (p, j) \<Rightarrow>
        if j < length projs
        then (case coeff (projs ! j) p 0 of Inl e \<Rightarrow> Inl e
              | Inr x \<Rightarrow> Inr (feature_row[p * n_characters cfg + j := Some x]))
        else Inr feature_row)"

definition get_feature_row ::
  "complex Matrix \<Rightarrow> PatchConfig \<Rightarrow> CyclicGroupCharacters \<Rightarrow> error + complex option list" where
  "get_feature_row V cfg grp =
     (case decompose_into_characters grp V of Inl e \<Rightarrow> Inl e
      | Inr projs \<Rightarrow>
          foldM (feature_step cfg projs)
            (List.product [0..<n_positions cfg] [0..<n_characters cfg])
            (replicate (n_positions cfg * n_characters cfg) None))"

text \<open>Row \<open>i\<close> of a patch's local system and its target \<^verbatim>\<open>patch.targets[i](0, 0)\<close>.\<close>

definition local_row ::
  "Patch \<Rightarrow> CyclicGroupCharacters \<Rightarrow> nat \<Rightarrow> error + (complex option list \<times> complex)" where
  "local_row patch grp i =
     (case get_feature_row (V_samples patch ! i) (config patch) grp of Inl e \<Rightarrow> Inl e
      | Inr feature_row \<Rightarrow>
          if i < length (targets patch)
          then (case coeff (targets patch ! i) 0 0 of Inl e \<Rightarrow> Inl e
                | Inr t \<Rightarrow> Inr (feature_row, t))
          else Inl OutOfBounds)"

definition build_local_patch ::
  "Patch \<Rightarrow> LocalSystemsResult \<times> nat \<Rightarrow> UnifiedSheafLearner
     \<Rightarrow> (error + LocalSystemsResult \<times> nat) \<times> UnifiedSheafLearner" where
  "build_local_patch patch acc learner =
     (case acc of (result, current_col_offset) \<Rightarrow>
        (let n_samples = length (V_samples patch);
             n_weights = n_positions (config patch) * n_characters (config patch);
             learner' = learner\<lparr>patch_configs := (patch_configs learner)(name patch \<mapsto> config patch)\<rparr>
         in case construct (n_positions (config patch)) of
              Inl e \<Rightarrow> (Inl e, learner')
            | Inr grp \<Rightarrow>
                (case mapM (local_row patch grp) [0..<n_samples] of
                   Inl e \<Rightarrow> (Inl e, learner')
                 | Inr rs \<Rightarrow>
                     (Inr (\<lparr>matrices = matrices result @ [\<lparr>data = map fst rs, cols = n_weights\<rparr>],
                            target_vectors = target_vectors result @ [map snd rs],
                            patch_offsets =
                              AList.update (name patch) current_col_offset (patch_offsets result),
                            patch_n_weights =
                              AList.update (name patch) n_weights (patch_n_weights result)\<rparr>,
                           current_col_offset + n_weights),
                      learner'))))"

definition build_local_systems ::
  "SheafProblem \<Rightarrow> UnifiedSheafLearner \<Rightarrow> (error + LocalSystemsResult) \<times> UnifiedSheafLearner" where
  "build_local_systems problem learner =
     (case foldSM build_local_patch (patches problem)
             (\<lparr>matrices = [], target_vectors = [], patch_offsets = [], patch_n_weights = []\<rparr>, 0)
             learner of
        (Inl e, learner') \<Rightarrow> (Inl e, learner')
      | (Inr (result, current_col_offset), learner') \<Rightarrow> (Inr result, learner'))"

text \<open>\<^verbatim>\<open>row.segment(offset, size) = xs\<close> and \<^verbatim>\<open>row.segment(offset, size) -= xs\<close>; a
  difference with a coefficient never written is itself unknown.\<close>

definition assign_segment :: "'a list \<Rightarrow> nat \<Rightarrow> 'a list \<Rightarrow> error + 'a list" where
  "assign_segment row offset xs =
     (if offset + length xs \<le> length row
      then Inr (take offset row @ xs @ drop (offset + length xs) row)
      else Inl OutOfBounds)"

definition minus_opt :: "complex option \<Rightarrow> complex option \<Rightarrow> complex option" where
  "minus_opt a b = (case (a, b) of (Some x, Some y) \<Rightarrow> Some (x - y) | _ \<Rightarrow> None)"

definition subtract_segment ::
  "complex option list \<Rightarrow> nat \<Rightarrow> complex option list \<Rightarrow> error + complex option list" where
  "subtract_segment row offset xs =
     (if offset + length xs \<le> length row
      then Inr (take offset row @ map2 minus_opt (take (length xs) (drop offset row)) xs
                @ drop (offset + length xs) row)
      else Inl OutOfBounds)"

definition gluing_row ::
  "LocalSystemsResult \<Rightarrow> nat \<Rightarrow> GluingConstraint \<Rightarrow> PatchConfig \<Rightarrow> PatchConfig
     \<Rightarrow> error + complex option list" where
  "gluing_row local_info total_weights gluing config1 config2 =
     (case construct (n_positions config1) of Inl e \<Rightarrow> Inl e
      | Inr grp1 \<Rightarrow>
     (case construct (n_positions config2) of Inl e \<Rightarrow> Inl e
      | Inr grp2 \<Rightarrow>
     (case get_feature_row (constraint_data_1 gluing) config1 grp1 of Inl e \<Rightarrow> Inl e
      | Inr feature1 \<Rightarrow>
     (case get_feature_row (constraint_data_2 gluing) config2 grp2 of Inl e \<Rightarrow> Inl e
      | Inr feature2 \<Rightarrow>
     (case at_key (patch_offsets local_info) (patch_1 gluing) of Inl e \<Rightarrow> Inl e
      | Inr offset1 \<Rightarrow>
     (case at_key (patch_offsets local_info) (patch_2 gluing) of Inl e \<Rightarrow> Inl e
      | Inr offset2 \<Rightarrow>
     (case assign_segment (replicate total_weights None) offset1 feature1 of Inl e \<Rightarrow> Inl e
      | Inr row \<Rightarrow> subtract_segment row offset2 feature2)))))))"

definition gluing_step ::
  "LocalSystemsResult \<Rightarrow> nat \<Rightarrow> GluingConstraint \<Rightarrow> complex option list list
     \<Rightarrow> UnifiedSheafLearner \<Rightarrow> (error + complex option list list) \<times> UnifiedSheafLearner" where
  "gluing_step local_info total_weights gluing rws learner =
     (case subscript (patch_configs learner) (patch_1 gluing) of (config1, m1) \<Rightarrow>
      case subscript m1 (patch_2 gluing) of (config2, m2) \<Rightarrow>
        (case gluing_row local_info total_weights gluing config1 config2 of
           Inl e \<Rightarrow> (Inl e, learner\<lparr>patch_configs := m2\<rparr>)
         | Inr row \<Rightarrow> (Inr (rws @ [row]), learner\<lparr>patch_configs := m2\<rparr>)))"

definition build_gluing_system ::
  "SheafProblem \<Rightarrow> LocalSystemsResult \<Rightarrow> UnifiedSheafLearner
     \<Rightarrow> (error + GluingSystemResult) \<times> UnifiedSheafLearner" where
  "build_gluing_system problem local_info learner =
     (if gluings problem = []
      then (Inr \<lparr>A_gluing = \<lparr>data = [], cols = 0\<rparr>, b_gluing = []\<rparr>, learner)
      else (let total_weights = sum_list (map snd (patch_n_weights local_info))
            in case foldSM (gluing_step local_info total_weights) (gluings problem) [] learner of
                 (Inl e, learner') \<Rightarrow> (Inl e, learner')
               | (Inr rws, learner') \<Rightarrow>
                   (Inr \<lparr>A_gluing = \<lparr>data = rws, cols = total_weights\<rparr>,
                         b_gluing = replicate (length (gluings problem)) 0\<rparr>,
                    learner')))"

text \<open>\<^verbatim>\<open>A_sheaf.block(row_offset, 0, mat.rows(), mat.cols()) = mat\<close>: the block must fit
  into the columns of \<^verbatim>\<open>A_sheaf\<close>, and the columns to its right stay unwritten.\<close>

definition place_block :: "'a option Matrix \<Rightarrow> nat \<Rightarrow> error + 'a option list list" where
  "place_block mat total_cols =
     (if cols mat \<le> total_cols
      then Inr (map (\<lambda>r. r @ replicate (total_cols - cols mat) None) (data mat))
      else Inl OutOfBounds)"

definition assemble_global_system ::
  "LocalSystemsResult \<Rightarrow> GluingSystemResult \<Rightarrow> error + (complex option Matrix \<times> complex list)" where
  "assemble_global_system local_result gluing_result =
     (let total_cols = (if matrices local_result = [] then 0
                        else cols (matrices local_result ! 0))
      in case mapM (\<lambda>mat. place_block mat total_cols) (matrices local_result) of
           Inl e \<Rightarrow> Inl e
         | Inr local_blocks \<Rightarrow>
             (case (if 0 < rows (A_gluing gluing_result)
                    then place_block (A_gluing gluing_result) total_cols else Inr []) of
                Inl e \<Rightarrow> Inl e
              | Inr gluing_block \<Rightarrow>
                  Inr (\<lparr>data = concat local_blocks @ gluing_block, cols = total_cols\<rparr>,
                       concat (target_vectors local_result) @ b_gluing gluing_result)))"

text \<open>The values the program computes with: the coefficient written, or what the memory
  holds at a position never written.\<close>

definition resolve_row :: "(nat \<Rightarrow> 'a) \<Rightarrow> 'a option list \<Rightarrow> 'a list" where
  "resolve_row unwritten r =
     map (\<lambda>j. case r ! j of None \<Rightarrow> unwritten j | Some v \<Rightarrow> v) [0..<length r]"

definition resolve :: "(nat \<Rightarrow> nat \<Rightarrow> 'a) \<Rightarrow> 'a option Matrix \<Rightarrow> 'a Matrix" where
  "resolve unwritten M =
     \<lparr>data = map (\<lambda>i. resolve_row (unwritten i) (data M ! i)) [0..<rows M], cols = cols M\<rparr>"

text \<open>The ridge-regularised normal equations, solved by Eigen's \<^verbatim>\<open>llt().solve\<close>.\<close>

definition solve_global :: "solver \<Rightarrow> complex Matrix \<Rightarrow> complex list \<Rightarrow> complex list" where
  "solve_global llt_solve A_sheaf b_sheaf =
     (let A_H_A = add_to_diagonal (mat_mul (adjoint A_sheaf) A_sheaf) lambda_ridge;
          A_H_b = mat_vec (adjoint A_sheaf) b_sheaf
      in map (llt_solve A_H_A A_H_b) [0..<cols A_sheaf])"

definition segment :: "'a list \<Rightarrow> nat \<Rightarrow> nat \<Rightarrow> error + 'a list" where
  "segment v offset n =
     (if offset + n \<le> length v then Inr (take n (drop offset v)) else Inl OutOfBounds)"

definition nth_checked :: "'a list \<Rightarrow> nat \<Rightarrow> error + 'a" where
  "nth_checked v i = (if i < length v then Inr (v ! i) else Inl OutOfBounds)"

definition unpack_patch ::
  "complex list \<Rightarrow> LocalSystemsResult \<Rightarrow> string \<times> nat \<Rightarrow> (string \<rightharpoonup> complex Matrix)
     \<Rightarrow> UnifiedSheafLearner \<Rightarrow> (error + (string \<rightharpoonup> complex Matrix)) \<times> UnifiedSheafLearner" where
  "unpack_patch w_solution local_info entry ws learner =
     (case entry of (nm, offset) \<Rightarrow>
        (case at_key (patch_n_weights local_info) nm of
           Inl e \<Rightarrow> (Inl e, learner)
         | Inr n_weights \<Rightarrow>
             (case subscript (patch_configs learner) nm of (cfg, m) \<Rightarrow>
                (case segment w_solution offset n_weights of
                   Inl e \<Rightarrow> (Inl e, learner\<lparr>patch_configs := m\<rparr>)
                 | Inr weights_flat \<Rightarrow>
                     (case mapM (\<lambda>p. mapM (\<lambda>j. nth_checked weights_flat (p * n_characters cfg + j))
                                        [0..<n_characters cfg]) [0..<n_positions cfg] of
                        Inl e \<Rightarrow> (Inl e, learner\<lparr>patch_configs := m\<rparr>)
                      | Inr rs \<Rightarrow>
                          (Inr (ws(nm \<mapsto> \<lparr>data = rs, cols = n_characters cfg\<rparr>)),
                           learner\<lparr>patch_configs := m\<rparr>))))))"

definition unpack_solution ::
  "complex list \<Rightarrow> LocalSystemsResult \<Rightarrow> real \<Rightarrow> UnifiedSheafLearner
     \<Rightarrow> (error + SheafSolution) \<times> UnifiedSheafLearner" where
  "unpack_solution w_solution local_info residual learner =
     (case foldSM (unpack_patch w_solution local_info) (patch_offsets local_info) Map.empty
             learner of
        (Inl e, learner') \<Rightarrow> (Inl e, learner')
      | (Inr ws, learner') \<Rightarrow>
          (Inr \<lparr>weights = ws, residual_error = residual, converged = (residual < EPSILON)\<rparr>,
           learner'))"

definition fit ::
  "solver \<Rightarrow> (nat \<Rightarrow> nat \<Rightarrow> complex) \<Rightarrow> UnifiedSheafLearner \<Rightarrow> SheafProblem
     \<Rightarrow> (error + SheafSolution) \<times> UnifiedSheafLearner" where
  "fit llt_solve unwritten learner problem =
     (case build_local_systems problem learner of
        (Inl e, l1) \<Rightarrow> (Inl e, l1)
      | (Inr local_result, l1) \<Rightarrow>
     (case build_gluing_system problem local_result l1 of
        (Inl e, l2) \<Rightarrow> (Inl e, l2)
      | (Inr gluing_result, l2) \<Rightarrow>
     (case assemble_global_system local_result gluing_result of
        Inl e \<Rightarrow> (Inl e, l2)
      | Inr (A_opt, b_sheaf) \<Rightarrow>
          (let A_sheaf = resolve unwritten A_opt;
               w_solution = solve_global llt_solve A_sheaf b_sheaf;
               residuals = vec_sub (mat_vec A_sheaf w_solution) b_sheaf;
               r = squaredNorm residuals;
               residual = (if r < EPSILON then 0 else r)
           in case unpack_solution w_solution local_result residual l2 of
                (Inl e, l3) \<Rightarrow> (Inl e, l3)
              | (Inr sol, l3) \<Rightarrow> (Inr sol, l3\<lparr>solution := sol, fitted := True\<rparr>)))))"

text \<open>\<^verbatim>\<open>predict\<close>; Eigen's \<^verbatim>\<open>dot\<close> conjugates its left operand.\<close>

definition predict ::
  "(nat \<Rightarrow> complex) \<Rightarrow> UnifiedSheafLearner \<Rightarrow> string \<Rightarrow> complex Matrix
     \<Rightarrow> error + complex Matrix" where
  "predict unwritten learner patch_name V =
     (if \<not> fitted learner then Inl NotFitted
      else
     (case patch_configs learner patch_name of None \<Rightarrow> Inl UnknownPatch
      | Some cfg \<Rightarrow>
     (case weights (solution learner) patch_name of None \<Rightarrow> Inl UnknownPatch
      | Some ws \<Rightarrow>
     (case construct (n_positions cfg) of Inl e \<Rightarrow> Inl e
      | Inr grp \<Rightarrow>
     (case get_feature_row V cfg grp of Inl e \<Rightarrow> Inl e
      | Inr feature_row \<Rightarrow>
     (case mapM (\<lambda>pj. coeff ws (fst pj) (snd pj))
             (List.product [0..<n_positions cfg] [0..<n_characters cfg]) of Inl e \<Rightarrow> Inl e
      | Inr weights_flat \<Rightarrow>
          Inr \<lparr>data = [[sum_list (map2 (\<lambda>a b. cnj a * b)
                                    (resolve_row unwritten feature_row) weights_flat)]],
               cols = 1\<rparr>))))))"

text \<open>What \<open>fit\<close> commits in its last two assignments: the fitted flag and the stored
  solution (and the verbosity, which nothing changes).\<close>

definition same_commit :: "UnifiedSheafLearner \<Rightarrow> UnifiedSheafLearner \<Rightarrow> bool" where
  "same_commit l l' \<longleftrightarrow>
     verbose l' = verbose l \<and> fitted l' = fitted l \<and> solution l' = solution l"

text \<open>Inputs of the examples: a patch of order 1 with one sample, a patch of order 0, a
  patch of order 1 whose two equal samples have different targets, and a solver that is
  exact on a diagonal system.\<close>

definition unit_patch :: "string \<Rightarrow> complex \<Rightarrow> complex \<Rightarrow> Patch" where
  "unit_patch nm x t =
     \<lparr>name = nm, V_samples = [\<lparr>data = [[x]], cols = 1\<rparr>], targets = [\<lparr>data = [[t]], cols = 1\<rparr>],
      config = \<lparr>n_positions = 1, n_characters = 1, d_model = 1\<rparr>\<rparr>"

definition empty_patch :: "string \<Rightarrow> Patch" where
  "empty_patch nm =
     \<lparr>name = nm, V_samples = [], targets = [],
      config = \<lparr>n_positions = 0, n_characters = 0, d_model = 1\<rparr>\<rparr>"


definition diagonal_solve :: solver where
  "diagonal_solve A b i = b ! i / data A ! i ! i"

section \<open>Rotation\<close>

lemma rotate_m_zero: "rotate_m V 0 = Inr V"
  by (simp add: rotate_m_def)

lemma rotate_m_pos:
  "0 < rows V \<Longrightarrow> 0 < k \<Longrightarrow>
   rotate_m V k =
     Inr \<lparr>data = map (\<lambda>i. data V ! ((i + rows V - k mod rows V) mod rows V)) [0..<rows V],
          cols = cols V\<rparr>"
  by (simp add: rotate_m_def)

lemma rotate_m_fails: "rotate_m V k = Inl e \<longleftrightarrow> e = DivisionByZero \<and> rows V = 0 \<and> 0 < k"
  by (auto simp: rotate_m_def Let_def)

text \<open>
  Claim C10. \<open>rotate_m V k\<close> fails, with the modulo by zero, exactly when \<open>V\<close> has no row
  and \<open>k > 0\<close>; for \<open>k = 0\<close> it returns \<open>V\<close> itself; whenever it returns, the result has the
  dimensions of \<open>V\<close> and its row \<open>i\<close> is row \<open>(i + rows V - k mod rows V) mod rows V\<close> of \<open>V\<close>.
\<close>

theorem rotate_rows_and_totality:
  "(rotate_m V k = Inl DivisionByZero \<longleftrightarrow> rows V = 0 \<and> 0 < k) \<and>
   ((\<exists>R. rotate_m V k = Inr R) \<longleftrightarrow> 0 < rows V \<or> k = 0) \<and>
   (k = 0 \<longrightarrow> rotate_m V k = Inr V) \<and>
   (\<forall>R. rotate_m V k = Inr R \<longrightarrow>
      rows R = rows V \<and> cols R = cols V \<and>
      (\<forall>i<rows V. data R ! i = data V ! ((i + rows V - k mod rows V) mod rows V)))"
proof (cases "k = 0")
  case True
  then show ?thesis by (simp add: rotate_m_zero)
next
  case False
  show ?thesis
  proof (cases "rows V = 0")
    case True
    with False show ?thesis by (simp add: rotate_m_def)
  next
    case pos: False
    with False have "rotate_m V k =
        Inr \<lparr>data = map (\<lambda>i. data V ! ((i + rows V - k mod rows V) mod rows V)) [0..<rows V],
             cols = cols V\<rparr>"
      by (simp add: rotate_m_pos)
    with False pos show ?thesis by (auto simp: rows_def)
  qed
qed

theorem rotate_rows_and_totality_witness:
  "0 < rows \<lparr>data = [[1], [2], [3::complex]], cols = 1\<rparr> \<and>
   rotate_m \<lparr>data = [[1], [2], [3::complex]], cols = 1\<rparr> 4
     = Inr \<lparr>data = [[3], [1], [2]], cols = 1\<rparr> \<and>
   rows \<lparr>data = ([] :: complex list list), cols = 1\<rparr> = 0 \<and>
   rotate_m \<lparr>data = ([] :: complex list list), cols = 1\<rparr> 4 = Inl DivisionByZero"
  using rotate_rows_and_totality [of "\<lparr>data = [[1], [2], [3::complex]], cols = 1\<rparr>" 4]
    rotate_rows_and_totality [of "\<lparr>data = ([] :: complex list list), cols = 1\<rparr>" 4]
  by (simp add: rotate_m_def rows_def upt_rec [of 0] upt_rec [of 1] upt_rec [of 2])

section \<open>The character table\<close>

lemma construct_Inr:
  "construct n = Inr G \<longleftrightarrow>
     0 < n \<and> G = \<lparr>n_order = n, omega = cis (2 * pi / real n),
                   characters = compute_character_table n (cis (2 * pi / real n))\<rparr>"
  by (auto simp: construct_def)

lemma character_value:
  assumes "construct n = Inr G" "j < n" "k < n"
  shows "character G j k = Inr (cis (2 * pi / real n) ^ (j * k))"
  using assms by (simp add: construct_Inr character_def coeff_def compute_character_table_def rows_def)

lemma cis_eq_one_imp:
  assumes "cis t = 1"
  shows "\<exists>m::int. t = real_of_int m * 2 * pi"
proof -
  from assms have "Re (cis t) = 1" by simp
  then have "cos t = 1" by simp
  then show ?thesis by (simp add: cos_one_2pi_int)
qed

lemma root_term:
  "cis t ^ (j * k) * cnj (cis t ^ (j' * k)) = cis ((real j - real j') * t) ^ k"
proof -
  have "cis t ^ (j * k) * cnj (cis t ^ (j' * k)) = cis (real (j * k) * t) * cis (- (real (j' * k) * t))"
    by (simp add: DeMoivre cis_cnj)
  also have "\<dots> = cis (real k * ((real j - real j') * t))"
    by (simp add: cis_mult algebra_simps)
  also have "\<dots> = cis ((real j - real j') * t) ^ k"
    by (simp add: DeMoivre)
  finally show ?thesis .
qed

lemma root_ne_one:
  assumes "0 < n" "j < n" "j' < n" "j \<noteq> j'"
  shows "cis ((real j - real j') * (2 * pi / real n)) \<noteq> 1"
proof
  assume "cis ((real j - real j') * (2 * pi / real n)) = 1"
  then obtain m :: int where m: "(real j - real j') * (2 * pi / real n) = real_of_int m * 2 * pi"
    using cis_eq_one_imp by blast
  from m have "(2 * pi) * ((real j - real j') / real n) = (2 * pi) * real_of_int m"
    by (simp add: algebra_simps)
  then have "(real j - real j') / real n = real_of_int m"
    by (simp only: mult_cancel_left) simp
  with assms(1) have "real j - real j' = real_of_int m * real n"
    by (simp add: field_simps)
  then have "real_of_int (int j - int j') = real_of_int (m * int n)" by simp
  then have eq: "int j - int j' = m * int n" by (simp only: of_int_eq_iff)
  have "\<bar>int j - int j'\<bar> < int n" using assms by linarith
  with eq have "\<bar>m\<bar> * int n < int n" by (simp add: abs_mult)
  with assms(1) have "\<bar>m\<bar> < 1" by simp
  then have "m = 0" by simp
  with eq assms(4) show False by simp
qed

lemma character_orthogonality_sum:
  assumes "0 < n" "j < n" "j' < n"
  shows "(\<Sum>k<n. cis (2 * pi / real n) ^ (j * k) * cnj (cis (2 * pi / real n) ^ (j' * k)))
           = (if j = j' then of_nat n else 0)"
proof -
  let ?z = "cis ((real j - real j') * (2 * pi / real n))"
  have s: "(\<Sum>k<n. cis (2 * pi / real n) ^ (j * k) * cnj (cis (2 * pi / real n) ^ (j' * k)))
            = (\<Sum>k<n. ?z ^ k)"
    by (simp only: root_term)
  show ?thesis
  proof (cases "j = j'")
    case True
    have "(\<Sum>k<n. ?z ^ k) = of_nat n" using True by simp
    with s have "(\<Sum>k<n. cis (2 * pi / real n) ^ (j * k) * cnj (cis (2 * pi / real n) ^ (j' * k)))
            = of_nat n" by (simp only:)
    with True show ?thesis by (simp only: simp_thms if_True)
  next
    case False
    then have ne: "?z \<noteq> 1" using assms by (rule_tac root_ne_one)
    have "?z ^ n = cis (real n * ((real j - real j') * (2 * pi / real n)))"
      by (simp only: DeMoivre)
    also have "real n * ((real j - real j') * (2 * pi / real n)) = 2 * pi * (real j - real j')"
      using assms(1) by (simp add: field_simps)
    also have "cis (2 * pi * (real j - real j')) = 1"
    proof -
      have "real j - real j' = real_of_int (int j - int j')" by simp
      then have "real j - real j' \<in> \<int>" by (metis Ints_of_int)
      then show ?thesis by (rule cis_multiple_2pi)
    qed
    finally have "?z ^ n = 1" .
    with ne have "(\<Sum>k<n. ?z ^ k) = 0" by (simp add: geometric_sum)
    with s have "(\<Sum>k<n. cis (2 * pi / real n) ^ (j * k) * cnj (cis (2 * pi / real n) ^ (j' * k)))
            = 0" by (simp only:)
    with False show ?thesis by (simp only: simp_thms if_False)
  qed
qed

text \<open>
  Claim C7. For every order \<open>n > 0\<close> the constructor succeeds, \<open>character\<close> returns the
  table entry for all indices below \<open>n\<close>, and for \<open>j, j' < n\<close> the normalised sum
  \<open>(1/n) \<Sum>k<n. \<chi> j k * cnj (\<chi> j' k)\<close> is 1 if \<open>j = j'\<close> and 0 otherwise (in exact
  complex arithmetic).
\<close>

theorem character_orthogonality:
  assumes "0 < n" "j < n" "j' < n"
  shows "\<exists>G \<chi>. construct n = Inr G \<and>
           (\<forall>a<n. \<forall>k<n. character G a k = Inr (\<chi> a k)) \<and>
           (\<Sum>k<n. \<chi> j k * cnj (\<chi> j' k)) / of_nat n = (if j = j' then 1 else 0)"
proof -
  let ?w = "cis (2 * pi / real n)"
  let ?G = "\<lparr>n_order = n, omega = ?w, characters = compute_character_table n ?w\<rparr>"
  let ?\<chi> = "\<lambda>a k. ?w ^ (a * k)"
  have c: "construct n = Inr ?G" using assms(1) by (simp add: construct_def)
  have v: "\<forall>a<n. \<forall>k<n. character ?G a k = Inr (?\<chi> a k)"
    using character_value [OF c] by simp
  define S where "S = (\<Sum>k<n. ?\<chi> j k * cnj (?\<chi> j' k))"
  have "S = (if j = j' then of_nat n else 0)"
    unfolding S_def by (rule character_orthogonality_sum [OF assms])
  then have "S / of_nat n = (if j = j' then 1 else 0)"
    using assms(1) by simp
  then have o: "(\<Sum>k<n. ?\<chi> j k * cnj (?\<chi> j' k)) / of_nat n = (if j = j' then 1 else 0)"
    unfolding S_def .
  have "construct n = Inr ?G \<and>
           (\<forall>a<n. \<forall>k<n. character ?G a k = Inr (?\<chi> a k)) \<and>
           (\<Sum>k<n. ?\<chi> j k * cnj (?\<chi> j' k)) / of_nat n = (if j = j' then 1 else 0)"
    using c v o by (intro conjI)
  then show ?thesis
    by (intro exI [of _ ?G] exI [of _ ?\<chi>])
qed

theorem character_orthogonality_witness:
  "(0::nat) < 2 \<and> (1::nat) < 2 \<and>
   (\<exists>G \<chi>. construct 2 = Inr G \<and>
           (\<forall>a<2. \<forall>k<2. character G a k = Inr (\<chi> a k)) \<and>
           (\<Sum>k<2. \<chi> 0 k * cnj (\<chi> 1 k)) / of_nat 2 = 0)"
  using character_orthogonality [of 2 0 1] by simp

section \<open>Projection onto a character\<close>

lemma foldM_snoc:
  "foldM f (xs @ [x]) s = (case foldM f xs s of Inl e \<Rightarrow> Inl e | Inr s' \<Rightarrow> f x s')"
  by (induction xs arbitrary: s) (auto split: sum.splits)

lemma map2_map_upt:
  "map2 f (map g [0..<n]) (map h [0..<n]) = map (\<lambda>i. f (g i) (h i)) [0..<n]"
  by (rule nth_equalityI) simp_all

lemma wf_matrix_row:
  assumes "wf_matrix V" "i < rows V"
  shows "data V ! i = map (\<lambda>c. data V ! i ! c) [0..<cols V]"
proof -
  from assms have "length (data V ! i) = cols V"
    by (simp add: wf_matrix_def rows_def list_all_length)
  then show ?thesis by (metis map_nth)
qed

lemma wf_matrix_eq:
  assumes "wf_matrix V"
  shows "V = \<lparr>data = map (\<lambda>i. map (\<lambda>c. data V ! i ! c) [0..<cols V]) [0..<rows V], cols = cols V\<rparr>"
proof -
  have "data V = map (\<lambda>i. data V ! i) [0..<rows V]"
    by (simp add: rows_def map_nth)
  also have "\<dots> = map (\<lambda>i. map (\<lambda>c. data V ! i ! c) [0..<cols V]) [0..<rows V]"
    using wf_matrix_row [OF assms] by (intro map_cong) simp_all
  finally show ?thesis by simp
qed

lemma rotate_m_entries:
  assumes "wf_matrix V" "k < rows V"
  shows "rotate_m V k =
     Inr \<lparr>data = map (\<lambda>i. map (\<lambda>c. rotated_entry V k i c) [0..<cols V]) [0..<rows V],
          cols = cols V\<rparr>"
proof -
  have idx: "(i + rows V - k) mod rows V < rows V" for i
    using assms(2) by simp
  have rw: "data V ! ((i + rows V - k) mod rows V)
              = map (\<lambda>c. rotated_entry V k i c) [0..<cols V]" for i
    unfolding rotated_entry_def by (rule wf_matrix_row [OF assms(1) idx])
  show ?thesis
  proof (cases "k = 0")
    case True
    have "V = \<lparr>data = map (\<lambda>i. map (\<lambda>c. data V ! i ! c) [0..<cols V]) [0..<rows V], cols = cols V\<rparr>"
      by (rule wf_matrix_eq [OF assms(1)])
    also have "map (\<lambda>i. map (\<lambda>c. data V ! i ! c) [0..<cols V]) [0..<rows V]
        = map (\<lambda>i. map (\<lambda>c. rotated_entry V k i c) [0..<cols V]) [0..<rows V]"
      using True by (intro map_cong) (simp_all add: rotated_entry_def)
    finally show ?thesis using True by (simp add: rotate_m_zero)
  next
    case False
    with assms(2) show ?thesis by (simp add: rotate_m_pos rw)
  qed
qed

lemma Zero_as_map: "Zero r c = \<lparr>data = map (\<lambda>i. map (\<lambda>c. 0) [0..<c]) [0..<r], cols = c\<rparr>"
  by (simp add: Zero_def map_replicate_const)

lemma add_scaled_entries:
  "add_scaled \<lparr>data = map (\<lambda>i. map (\<lambda>c. f i c) [0..<d]) [0..<r], cols = d\<rparr> w
              \<lparr>data = map (\<lambda>i. map (\<lambda>c. g i c) [0..<d]) [0..<r], cols = d\<rparr>
   = Inr \<lparr>data = map (\<lambda>i. map (\<lambda>c. f i c + w * g i c) [0..<d]) [0..<r], cols = d\<rparr>"
  by (simp add: add_scaled_def rows_def map2_map_upt)

lemma mapM_Inr:
  "(\<And>x. x \<in> set xs \<Longrightarrow> f x = Inr (g x)) \<Longrightarrow> mapM f xs = Inr (map g xs)"
  by (induction xs) simp_all

lemma index_bound:
  assumes "p < np" "j < (nc::nat)"
  shows "p * nc + j < np * nc"
proof -
  have "p * nc + j < p * nc + nc" using assms(2) by simp
  also have "\<dots> = (Suc p) * nc" by simp
  also have "\<dots> \<le> np * nc" using assms(1) by (intro mult_le_mono1) simp
  finally show ?thesis .
qed

lemma flat_read_entries:
  assumes "i < r" "c < d"
  shows "flat_read \<lparr>data = map (\<lambda>i. map (\<lambda>c. g i c) [0..<d]) [0..<r], cols = d\<rparr> i c = Inr (g i c)"
proof -
  have "i * d + c < r * d" by (rule index_bound [OF assms])
  moreover have "(i * d + c) div d = i" "(i * d + c) mod d = c" using assms(2) by simp_all
  ultimately show ?thesis using assms by (simp add: flat_read_def rows_def)
qed

lemma add_scaled_flat_entries:
  "add_scaled_flat \<lparr>data = map (\<lambda>i. map (\<lambda>c. f i c) [0..<d]) [0..<r], cols = d\<rparr> w
              \<lparr>data = map (\<lambda>i. map (\<lambda>c. g i c) [0..<d]) [0..<r], cols = d\<rparr>
   = Inr \<lparr>data = map (\<lambda>i. map (\<lambda>c. f i c + w * g i c) [0..<d]) [0..<r], cols = d\<rparr>"
proof -
  let ?F = "\<lparr>data = map (\<lambda>i. map (\<lambda>c. f i c) [0..<d]) [0..<r], cols = d\<rparr>"
  let ?M = "\<lparr>data = map (\<lambda>i. map (\<lambda>c. g i c) [0..<d]) [0..<r], cols = d\<rparr>"
  have inner: "mapM (\<lambda>c. case flat_read ?M i c of Inl e \<Rightarrow> Inl e
                        | Inr x \<Rightarrow> Inr (data ?F ! i ! c + w * x)) [0..<d]
      = Inr (map (\<lambda>c. f i c + w * g i c) [0..<d])" if "i < r" for i
    by (rule mapM_Inr) (simp add: flat_read_entries [OF that] that)
  have "mapM (\<lambda>i. mapM (\<lambda>c. case flat_read ?M i c of Inl e \<Rightarrow> Inl e
                        | Inr x \<Rightarrow> Inr (data ?F ! i ! c + w * x)) [0..<d]) [0..<r]
      = Inr (map (\<lambda>i. map (\<lambda>c. f i c + w * g i c) [0..<d]) [0..<r])"
    by (rule mapM_Inr) (simp add: inner)
  then show ?thesis by (simp add: add_scaled_flat_def rows_def)
qed

lemma add_scaled_build_entries:
  "(case b of USE_EIGEN3 \<Rightarrow> add_scaled | NO_EIGEN3 \<Rightarrow> add_scaled_flat)
      \<lparr>data = map (\<lambda>i. map (\<lambda>c. f i c) [0..<d]) [0..<r], cols = d\<rparr> w
      \<lparr>data = map (\<lambda>i. map (\<lambda>c. g i c) [0..<d]) [0..<r], cols = d\<rparr>
   = Inr \<lparr>data = map (\<lambda>i. map (\<lambda>c. f i c + w * g i c) [0..<d]) [0..<r], cols = d\<rparr>"
  by (cases b) (simp_all add: add_scaled_entries add_scaled_flat_entries)

lemma project_loop:
  assumes G: "construct n = Inr G" and j: "j < n" and V: "wf_matrix V"
    and m: "m \<le> min (rows V) n"
  shows "foldM (project_step G V j) [0..<m] (Zero (rows V) (cols V))
     = Inr \<lparr>data = map (\<lambda>i. map (\<lambda>c. projection_sum G V j m i c) [0..<cols V]) [0..<rows V],
            cols = cols V\<rparr>"
  using m
proof (induction m)
  case 0
  show ?case by (simp add: Zero_as_map projection_sum_def)
next
  case (Suc m)
  then have IH: "foldM (project_step G V j) [0..<m] (Zero (rows V) (cols V))
     = Inr \<lparr>data = map (\<lambda>i. map (\<lambda>c. projection_sum G V j m i c) [0..<cols V]) [0..<rows V],
            cols = cols V\<rparr>"
    by simp
  from Suc.prems have mn: "m < n" and mr: "m < rows V" by simp_all
  have ch: "character G j m = Inr (omega G ^ (j * m))"
    using character_value [OF G j mn] G by (simp add: construct_Inr)
  have step: "project_step G V j m
       \<lparr>data = map (\<lambda>i. map (\<lambda>c. projection_sum G V j m i c) [0..<cols V]) [0..<rows V],
        cols = cols V\<rparr>
     = Inr \<lparr>data = map (\<lambda>i. map (\<lambda>c. projection_sum G V j (Suc m) i c) [0..<cols V]) [0..<rows V],
            cols = cols V\<rparr>"
    by (simp add: project_step_def ch rotate_m_entries [OF V mr] add_scaled_entries
        projection_sum_def)
  show ?case
    by (simp only: upt_Suc_append [OF le0] foldM_snoc IH step sum.case)
qed

lemma project_onto_character_entries:
  assumes G: "construct n = Inr G" and j: "j < n" and V: "wf_matrix V"
  shows "project_onto_character G V j
     = Inr \<lparr>data = map (\<lambda>i. map (\<lambda>c. projection_sum G V j (min (rows V) n) i c
                                        / of_nat (min (rows V) n)) [0..<cols V]) [0..<rows V],
            cols = cols V\<rparr>"
proof -
  have n: "n_order G = n" using G by (simp add: construct_Inr)
  show ?thesis
    using j by (simp add: project_onto_character_def n Let_def project_loop [OF G j V order_refl]
        div_scalar_def comp_def)
qed

lemma project_onto_character_matrix:
  assumes G: "construct n = Inr G" and j: "j < n" and V: "wf_matrix V"
  shows "project_onto_character G V j = Inr (projection_matrix G V j)"
proof -
  have n: "n_order G = n" using G by (simp add: construct_Inr)
  show ?thesis
    by (simp add: project_onto_character_entries [OF G j V] projection_matrix_def
        projection_entry_def n)
qed

lemma decompose_into_characters_list:
  assumes G: "construct n = Inr G" and V: "wf_matrix V"
  shows "decompose_into_characters G V
           = Inr (map (projection_matrix G V) [0..<min (rows V) n])"
proof -
  have n: "n_order G = n" using G by (simp add: construct_Inr)
  show ?thesis
    unfolding decompose_into_characters_def n
    by (rule mapM_Inr) (simp add: project_onto_character_matrix [OF G _ V])
qed

lemma reconstruct_loop:
  assumes "m \<le> L" "m \<le> length cs"
  shows "foldM (\<lambda>j result. (case b of USE_EIGEN3 \<Rightarrow> add_scaled | NO_EIGEN3 \<Rightarrow> add_scaled_flat)
                            result (cs ! j) (map (projection_matrix G V) [0..<L] ! j))
           [0..<m] (Zero (rows V) (cols V))
     = Inr \<lparr>data = map (\<lambda>i. map (\<lambda>c. \<Sum>j<m. cs ! j * projection_entry G V j i c)
                              [0..<cols V]) [0..<rows V],
            cols = cols V\<rparr>"
  using assms
proof (induction m)
  case 0
  show ?case by (simp add: Zero_as_map)
next
  case (Suc m)
  then have IH: "foldM (\<lambda>j result. (case b of USE_EIGEN3 \<Rightarrow> add_scaled | NO_EIGEN3 \<Rightarrow> add_scaled_flat)
                            result (cs ! j) (map (projection_matrix G V) [0..<L] ! j))
           [0..<m] (Zero (rows V) (cols V))
     = Inr \<lparr>data = map (\<lambda>i. map (\<lambda>c. \<Sum>j<m. cs ! j * projection_entry G V j i c)
                              [0..<cols V]) [0..<rows V],
            cols = cols V\<rparr>"
    by simp
  from Suc.prems have mL: "m < L" by simp
  have nth: "map (projection_matrix G V) [0..<L] ! m = projection_matrix G V m"
    using mL by simp
  show ?case
    by (simp only: upt_Suc_append [OF le0] foldM_snoc IH sum.case nth)
       (simp add: projection_matrix_def add_scaled_build_entries)
qed

lemma reconstruct_from_characters_entries:
  assumes "0 < L"
  shows "reconstruct_from_characters b G cs (map (projection_matrix G V) [0..<L])
     = Inr \<lparr>data = map (\<lambda>i. map (\<lambda>c. \<Sum>j<min L (length cs). cs ! j * projection_entry G V j i c)
                              [0..<cols V]) [0..<rows V],
            cols = cols V\<rparr>"
proof -
  have ne: "map (projection_matrix G V) [0..<L] \<noteq> []" using assms by simp
  have hd: "map (projection_matrix G V) [0..<L] ! 0 = projection_matrix G V 0"
    using assms by simp
  have dims: "rows (projection_matrix G V 0) = rows V" "cols (projection_matrix G V 0) = cols V"
    by (simp_all add: projection_matrix_def rows_def)
  show ?thesis
    unfolding reconstruct_from_characters_def
    by (simp only: ne if_False hd dims length_map length_upt diff_zero)
       (rule reconstruct_loop, simp_all)
qed

lemma upt_4: "[0..<4] = [0, 1, 2, 3]" "[0..<2] = [0, 1]" "[0..<1] = [0]"
  by (simp_all add: upt_rec)

text \<open>
  Claim C8. For a group of order \<open>n\<close>, a character index \<open>j < n\<close> and a signal \<open>V\<close>,
  \<open>project_onto_character G V j\<close> returns a matrix of the dimensions of \<open>V\<close> whose entries are
  \<open>(1/m) \<Sum>k<m. cnj (\<chi>\<^sub>j(k)) * rotate(V, k)\<close> with \<open>m = min (rows V) n\<close>: \<open>m\<close> terms,
  divided by \<open>m\<close>, where \<open>\<chi>\<^sub>j(k)\<close> and \<open>rotate(V, k)\<close> are what \<open>character\<close> and \<open>rotate_m\<close>
  return.
\<close>

theorem project_onto_character_formula:
  assumes "construct n = Inr G" "j < n" "wf_matrix V"
  shows "\<exists>P \<chi> R. project_onto_character G V j = Inr P \<and> rows P = rows V \<and> cols P = cols V \<and>
           (\<forall>k<min (rows V) n. character G j k = Inr (\<chi> k) \<and> rotate_m V k = Inr (R k)) \<and>
           (\<forall>i<rows V. \<forall>c<cols V.
              data P ! i ! c
                = (\<Sum>k<min (rows V) n. cnj (\<chi> k) * data (R k) ! i ! c) / of_nat (min (rows V) n))"
proof -
  let ?m = "min (rows V) n"
  let ?P = "\<lparr>data = map (\<lambda>i. map (\<lambda>c. projection_sum G V j ?m i c / of_nat ?m)
                              [0..<cols V]) [0..<rows V],
             cols = cols V\<rparr>"
  let ?\<chi> = "\<lambda>k. omega G ^ (j * k)"
  let ?R = "\<lambda>k. \<lparr>data = map (\<lambda>i. map (\<lambda>c. rotated_entry V k i c) [0..<cols V]) [0..<rows V],
                 cols = cols V\<rparr>"
  have w: "omega G = cis (2 * pi / real n)"
    using assms(1) by (simp add: construct_Inr)
  have p: "project_onto_character G V j = Inr ?P"
    by (rule project_onto_character_entries [OF assms])
  have d: "rows ?P = rows V" "cols ?P = cols V"
    by (simp_all add: rows_def)
  have k: "\<forall>k<?m. character G j k = Inr (?\<chi> k) \<and> rotate_m V k = Inr (?R k)"
    using character_value [OF assms(1,2)] rotate_m_entries [OF assms(3)] by (simp add: w)
  have e: "\<forall>i<rows V. \<forall>c<cols V.
      data ?P ! i ! c = (\<Sum>k<?m. cnj (?\<chi> k) * data (?R k) ! i ! c) / of_nat ?m"
    by (simp add: projection_sum_def)
  have "project_onto_character G V j = Inr ?P \<and> rows ?P = rows V \<and> cols ?P = cols V \<and>
           (\<forall>k<?m. character G j k = Inr (?\<chi> k) \<and> rotate_m V k = Inr (?R k)) \<and>
           (\<forall>i<rows V. \<forall>c<cols V.
              data ?P ! i ! c = (\<Sum>k<?m. cnj (?\<chi> k) * data (?R k) ! i ! c) / of_nat ?m)"
    using p d k e by (intro conjI)
  then show ?thesis
    by (intro exI [of _ ?P] exI [of _ ?\<chi>] exI [of _ ?R])
qed

theorem project_onto_character_formula_witness:
  "construct 2 = Inr \<lparr>n_order = 2, omega = - 1, characters = \<lparr>data = [[1, 1], [1, - 1]], cols = 2\<rparr>\<rparr> \<and>
   (1::nat) < 2 \<and> wf_matrix \<lparr>data = [[1], [2::complex]], cols = 1\<rparr> \<and>
   (\<exists>P \<chi> R. project_onto_character
        \<lparr>n_order = 2, omega = - 1, characters = \<lparr>data = [[1, 1], [1, - 1]], cols = 2\<rparr>\<rparr>
        \<lparr>data = [[1], [2]], cols = 1\<rparr> 1 = Inr P \<and>
      rows P = rows \<lparr>data = [[1], [2::complex]], cols = 1\<rparr> \<and>
      cols P = cols \<lparr>data = [[1], [2::complex]], cols = 1\<rparr> \<and>
      (\<forall>k<min (rows \<lparr>data = [[1], [2::complex]], cols = 1\<rparr>) 2.
          character \<lparr>n_order = 2, omega = - 1, characters = \<lparr>data = [[1, 1], [1, - 1]], cols = 2\<rparr>\<rparr> 1 k
            = Inr (\<chi> k) \<and>
          rotate_m \<lparr>data = [[1], [2]], cols = 1\<rparr> k = Inr (R k)) \<and>
      (\<forall>i<rows \<lparr>data = [[1], [2::complex]], cols = 1\<rparr>.
         \<forall>c<cols \<lparr>data = [[1], [2::complex]], cols = 1\<rparr>.
           data P ! i ! c
             = (\<Sum>k<min (rows \<lparr>data = [[1], [2::complex]], cols = 1\<rparr>) 2.
                  cnj (\<chi> k) * data (R k) ! i ! c)
               / of_nat (min (rows \<lparr>data = [[1], [2::complex]], cols = 1\<rparr>) 2)))"
proof -
  have c: "construct 2 = Inr \<lparr>n_order = 2, omega = - 1,
      characters = \<lparr>data = [[1, 1], [1, - 1]], cols = 2\<rparr>\<rparr>"
    by (simp add: construct_def compute_character_table_def upt_4)
  have h: "(1::nat) < 2" by simp
  have w: "wf_matrix \<lparr>data = [[1], [2::complex]], cols = 1\<rparr>"
    by (simp add: wf_matrix_def)
  show ?thesis
    using c h w project_onto_character_formula [OF c h w] by (intro conjI)
qed

section \<open>Decomposition and reconstruction\<close>

lemma conj_root_sum:
  assumes "0 < n" "k < n"
  shows "(\<Sum>j<n. cnj (cis (2 * pi / real n) ^ (j * k))) = (if k = 0 then of_nat n else 0)"
proof -
  let ?w = "cis (2 * pi / real n)"
  have t: "cnj (?w ^ (j * k)) = ?w ^ (0 * j) * cnj (?w ^ (k * j))" for j
    by (simp only: mult.commute [of j k] mult_zero_left power_0 mult_1)
  have "(\<Sum>j<n. cnj (?w ^ (j * k))) = (\<Sum>j<n. ?w ^ (0 * j) * cnj (?w ^ (k * j)))"
    by (simp only: t)
  also have "\<dots> = (if 0 = k then of_nat n else 0)"
    using assms by (intro character_orthogonality_sum) simp_all
  also have "\<dots> = (if k = 0 then of_nat n else 0)"
    by (cases "k = 0") simp_all
  finally show ?thesis .
qed

lemma projections_add_up:
  assumes G: "construct n = Inr G" and L: "rows V = n" and i: "i < n"
  shows "(\<Sum>j<n. projection_entry G V j i c) = data V ! i ! c"
proof -
  have n: "n_order G = n" and w: "omega G = cis (2 * pi / real n)" and pos: "0 < n"
    using G by (simp_all add: construct_Inr)
  have "(\<Sum>j<n. projection_entry G V j i c)
      = (\<Sum>j<n. (\<Sum>k<n. cnj (omega G ^ (j * k)) * rotated_entry V k i c) / of_nat n)"
    by (simp only: projection_entry_def projection_sum_def n L min.idem)
  also have "\<dots> = (\<Sum>j<n. \<Sum>k<n. cnj (omega G ^ (j * k)) * rotated_entry V k i c) / of_nat n"
    by (simp only: sum_divide_distrib)
  also have "(\<Sum>j<n. \<Sum>k<n. cnj (omega G ^ (j * k)) * rotated_entry V k i c)
      = (\<Sum>k<n. \<Sum>j<n. cnj (omega G ^ (j * k)) * rotated_entry V k i c)"
    by (rule sum.swap)
  also have "\<dots> = (\<Sum>k<n. (\<Sum>j<n. cnj (omega G ^ (j * k))) * rotated_entry V k i c)"
    by (simp only: sum_distrib_right)
  also have "\<dots> = (\<Sum>k<n. (if k = 0 then of_nat n else 0) * rotated_entry V k i c)"
    using pos by (intro sum.cong refl) (simp only: w conj_root_sum lessThan_iff)
  also have "\<dots> = (\<Sum>k<n. if k = 0 then of_nat n * rotated_entry V 0 i c else 0)"
    by (intro sum.cong refl) simp
  also have "\<dots> = of_nat n * rotated_entry V 0 i c"
    using pos by (simp add: sum.delta')
  finally have "(\<Sum>j<n. projection_entry G V j i c) = rotated_entry V 0 i c"
    using pos by simp
  then show ?thesis using i by (simp add: rotated_entry_def L)
qed

lemma roundtrip_full_length:
  assumes "0 < n" "wf_matrix V" "rows V = n"
  shows "roundtrip b n V = Inr V"
proof -
  let ?G = "\<lparr>n_order = n, omega = cis (2 * pi / real n),
            characters = compute_character_table n (cis (2 * pi / real n))\<rparr>"
  have G: "construct n = Inr ?G" using assms(1) by (simp add: construct_def)
  have d: "decompose_into_characters ?G V = Inr (map (projection_matrix ?G V) [0..<n])"
    using decompose_into_characters_list [OF G assms(2)] assms(3) by simp
  have r: "reconstruct_from_characters b ?G (replicate n 1) (map (projection_matrix ?G V) [0..<n])
     = Inr \<lparr>data = map (\<lambda>i. map (\<lambda>c. \<Sum>j<n. replicate n 1 ! j * projection_entry ?G V j i c)
                              [0..<cols V]) [0..<rows V],
            cols = cols V\<rparr>"
    using reconstruct_from_characters_entries [OF assms(1), of b ?G "replicate n 1" V] by simp
  have s: "(\<Sum>j<n. replicate n 1 ! j * projection_entry ?G V j i c) = data V ! i ! c"
    if "i < n" for i c
  proof -
    have "(\<Sum>j<n. replicate n 1 ! j * projection_entry ?G V j i c)
        = (\<Sum>j<n. projection_entry ?G V j i c)"
      by (intro sum.cong refl) simp
    with projections_add_up [OF G assms(3) that] show ?thesis by simp
  qed
  have "map (\<lambda>i. map (\<lambda>c. \<Sum>j<n. replicate n 1 ! j * projection_entry ?G V j i c)
                              [0..<cols V]) [0..<rows V]
      = map (\<lambda>i. map (\<lambda>c. data V ! i ! c) [0..<cols V]) [0..<rows V]"
    using s assms(3) by (intro map_cong refl) simp
  then have "\<lparr>data = map (\<lambda>i. map (\<lambda>c. \<Sum>j<n. replicate n 1 ! j * projection_entry ?G V j i c)
                              [0..<cols V]) [0..<rows V], cols = cols V\<rparr>
      = \<lparr>data = map (\<lambda>i. map (\<lambda>c. data V ! i ! c) [0..<cols V]) [0..<rows V], cols = cols V\<rparr>"
    by (simp only:)
  also have "\<dots> = V" by (rule wf_matrix_eq [OF assms(2), symmetric])
  finally have "reconstruct_from_characters b ?G (replicate n 1) (map (projection_matrix ?G V) [0..<n])
     = Inr V"
    using r by (simp only:)
  with G d show ?thesis by (simp add: roundtrip_def)
qed

lemma roundtrip_one_row:
  assumes "0 < n" "wf_matrix V" "rows V = 1"
  shows "roundtrip b n V = Inr V"
proof -
  let ?G = "\<lparr>n_order = n, omega = cis (2 * pi / real n),
            characters = compute_character_table n (cis (2 * pi / real n))\<rparr>"
  have G: "construct n = Inr ?G" using assms(1) by (simp add: construct_def)
  have m: "min (rows V) n = 1" using assms(1,3) by simp
  have d: "decompose_into_characters ?G V = Inr (map (projection_matrix ?G V) [0..<1])"
    using decompose_into_characters_list [OF G assms(2)] by (simp only: m)
  have r: "reconstruct_from_characters b ?G (replicate n 1) (map (projection_matrix ?G V) [0..<1])
     = Inr \<lparr>data = map (\<lambda>i. map (\<lambda>c. \<Sum>j<min 1 (length (replicate n (1::complex))).
                                           replicate n 1 ! j * projection_entry ?G V j i c)
                              [0..<cols V]) [0..<rows V],
            cols = cols V\<rparr>"
    by (rule reconstruct_from_characters_entries) simp
  have s: "(\<Sum>j<min 1 (length (replicate n (1::complex))).
              replicate n 1 ! j * projection_entry ?G V j i c) = data V ! i ! c"
    if "i < rows V" for i c
  proof -
    have "min 1 (length (replicate n (1::complex))) = 1" using assms(1) by simp
    then have "(\<Sum>j<min 1 (length (replicate n (1::complex))).
              replicate n 1 ! j * projection_entry ?G V j i c)
        = replicate n 1 ! 0 * projection_entry ?G V 0 i c"
      by simp
    also have "\<dots> = projection_entry ?G V 0 i c" using assms(1) by simp
    also have "\<dots> = data V ! i ! c"
    proof -
      have m': "min (Suc 0) n = Suc 0" using assms(1) by simp
      show ?thesis
        using that assms(3)
        by (simp add: projection_entry_def projection_sum_def rotated_entry_def m')
    qed
    finally show ?thesis .
  qed
  have "map (\<lambda>i. map (\<lambda>c. \<Sum>j<min 1 (length (replicate n (1::complex))).
                           replicate n 1 ! j * projection_entry ?G V j i c)
                              [0..<cols V]) [0..<rows V]
      = map (\<lambda>i. map (\<lambda>c. data V ! i ! c) [0..<cols V]) [0..<rows V]"
    using s by (intro map_cong refl) simp
  then have "\<lparr>data = map (\<lambda>i. map (\<lambda>c. \<Sum>j<min 1 (length (replicate n (1::complex))).
                           replicate n 1 ! j * projection_entry ?G V j i c)
                              [0..<cols V]) [0..<rows V], cols = cols V\<rparr>
      = \<lparr>data = map (\<lambda>i. map (\<lambda>c. data V ! i ! c) [0..<cols V]) [0..<rows V], cols = cols V\<rparr>"
    by (simp only:)
  also have "\<dots> = V" by (rule wf_matrix_eq [OF assms(2), symmetric])
  finally have "reconstruct_from_characters b ?G (replicate n 1) (map (projection_matrix ?G V) [0..<1])
     = Inr V"
    using r by (simp only:)
  with G d show ?thesis by (simp add: roundtrip_def)
qed

lemma documented_projections_add_up:
  assumes G: "construct n = Inr G" and i: "i < rows V"
  shows "(\<Sum>j<n. documented_projection_entry G V j i c) = data V ! i ! c"
proof -
  have n: "n_order G = n" and w: "omega G = cis (2 * pi / real n)" and pos: "0 < n"
    using G by (simp_all add: construct_Inr)
  let ?e = "\<lambda>k. data V ! ((i + rows V - k mod rows V) mod rows V) ! c"
  have "(\<Sum>j<n. documented_projection_entry G V j i c)
      = (\<Sum>j<n. (\<Sum>k<n. cnj (omega G ^ (j * k)) * ?e k) / of_nat n)"
    by (simp only: documented_projection_entry_def n)
  also have "\<dots> = (\<Sum>j<n. \<Sum>k<n. cnj (omega G ^ (j * k)) * ?e k) / of_nat n"
    by (simp only: sum_divide_distrib)
  also have "(\<Sum>j<n. \<Sum>k<n. cnj (omega G ^ (j * k)) * ?e k)
      = (\<Sum>k<n. \<Sum>j<n. cnj (omega G ^ (j * k)) * ?e k)"
    by (rule sum.swap)
  also have "\<dots> = (\<Sum>k<n. (\<Sum>j<n. cnj (omega G ^ (j * k))) * ?e k)"
    by (simp only: sum_distrib_right)
  also have "\<dots> = (\<Sum>k<n. (if k = 0 then of_nat n else 0) * ?e k)"
    using pos by (intro sum.cong refl) (simp only: w conj_root_sum lessThan_iff)
  also have "\<dots> = (\<Sum>k<n. if k = 0 then of_nat n * ?e 0 else 0)"
    by (intro sum.cong refl) simp
  also have "\<dots> = of_nat n * ?e 0"
    using pos by (simp add: sum.delta')
  finally have "(\<Sum>j<n. documented_projection_entry G V j i c) = ?e 0"
    using pos by simp
  then show ?thesis using i by simp
qed

lemma cis_quarter: "cis (2 * pi / 4) = \<i>"
  by (simp add: cis_pi_half)

lemma construct_4:
  "construct 4 = Inr \<lparr>n_order = 4, omega = \<i>, characters = compute_character_table 4 \<i>\<rparr>"
  by (simp add: construct_def cis_quarter)

lemma roundtrip_short_signal:
  "roundtrip b 4 \<lparr>data = [[1], [0]], cols = 1\<rparr> = Inr \<lparr>data = [[1], [(1 - \<i>) / 2]], cols = 1\<rparr>"
  by (cases b)
     (simp_all add: roundtrip_def construct_def cis_quarter decompose_into_characters_def
      project_onto_character_def project_step_def character_def coeff_def
      compute_character_table_def rows_def upt_4 rotate_m_def add_scaled_def Zero_def
      add_scaled_flat_def flat_read_def
      div_scalar_def reconstruct_from_characters_def Let_def field_simps)

lemma short_signal_deviation: "1 / 2 < cmod ((1 - \<i>) / 2 - 0)"
proof -
  have "(cmod ((1 - \<i>) / 2 - 0))\<^sup>2 = 1 / 2"
    by (simp only: cmod_power2) (simp add: power2_eq_square)
  then have "(1 / 2)\<^sup>2 < (cmod ((1 - \<i>) / 2 - 0))\<^sup>2"
    by (simp only:) (simp add: power2_eq_square)
  then show ?thesis by (rule power2_less_imp_less) simp
qed

text \<open>
  Claim C2. For \<open>n = 4\<close> and the two-row signal \<open>(1, 0)\<close>, a signal shorter than the group
  order, the round trip returns \<open>(1, (1 - \<i>) / 2)\<close> in both builds, at distance more than
  \<open>1/2\<close> from the signal, while the projections that the header documents add up to the
  signal. (The round trip is exact for signals of \<open>n\<close> rows and of one row.)
\<close>

theorem roundtrip_short_signal_diverges:
  "rows \<lparr>data = [[1], [0::complex]], cols = 1\<rparr> = 2 \<and> (2::nat) \<le> 4 \<and>
   roundtrip USE_EIGEN3 4 \<lparr>data = [[1], [0]], cols = 1\<rparr>
     = Inr \<lparr>data = [[1], [(1 - \<i>) / 2]], cols = 1\<rparr> \<and>
   roundtrip NO_EIGEN3 4 \<lparr>data = [[1], [0]], cols = 1\<rparr>
     = Inr \<lparr>data = [[1], [(1 - \<i>) / 2]], cols = 1\<rparr> \<and>
   \<lparr>data = [[1], [(1 - \<i>) / 2]], cols = 1\<rparr> \<noteq> \<lparr>data = [[1], [0]], cols = 1\<rparr> \<and>
   1 / 2 < cmod ((1 - \<i>) / 2 - 0) \<and>
   construct 4 = Inr \<lparr>n_order = 4, omega = \<i>, characters = compute_character_table 4 \<i>\<rparr> \<and>
   (\<Sum>j<4. documented_projection_entry
             \<lparr>n_order = 4, omega = \<i>, characters = compute_character_table 4 \<i>\<rparr>
             \<lparr>data = [[1], [0]], cols = 1\<rparr> j 1 0) = 0"
proof -
  have r: "rows \<lparr>data = [[1], [0::complex]], cols = 1\<rparr> = 2" by (simp add: rows_def)
  have l: "(2::nat) \<le> 4" by simp
  have ne: "\<lparr>data = [[1], [(1 - \<i>) / 2]], cols = 1\<rparr> \<noteq> \<lparr>data = [[1], [0::complex]], cols = 1\<rparr>"
    by (simp add: complex_eq_iff)
  have i: "1 < rows \<lparr>data = [[1], [0::complex]], cols = 1\<rparr>" by (simp add: rows_def)
  have d: "(\<Sum>j<4. documented_projection_entry
             \<lparr>n_order = 4, omega = \<i>, characters = compute_character_table 4 \<i>\<rparr>
             \<lparr>data = [[1], [0]], cols = 1\<rparr> j 1 0) = 0"
    using documented_projections_add_up [OF construct_4 i, of 0] by simp
  show ?thesis
    using r l roundtrip_short_signal [of USE_EIGEN3] roundtrip_short_signal [of NO_EIGEN3]
      ne short_signal_deviation construct_4 d
    by (intro conjI)
qed

section \<open>Feature rows\<close>

lemma feature_step_pair:
  "feature_step cfg projs (p, j) fr =
     (if j < length projs
      then (if p < rows (projs ! j) \<and> 0 < cols (projs ! j)
            then Inr (fr[p * n_characters cfg + j := Some (data (projs ! j) ! p ! 0)])
            else Inl OutOfBounds)
      else Inr fr)"
  by (simp add: feature_step_def coeff_def)

lemma feature_loop_fails:
  assumes "\<exists>pj\<in>set xs. snd pj < length projs \<and>
             \<not> (fst pj < rows (projs ! snd pj) \<and> 0 < cols (projs ! snd pj))"
  shows "foldM (feature_step cfg projs) xs fr = Inl OutOfBounds"
  using assms
proof (induction xs arbitrary: fr)
  case Nil
  then show ?case by simp
next
  case (Cons x xs)
  obtain p j where x: "x = (p, j)" by (cases x)
  show ?case
  proof (cases "j < length projs \<and> \<not> (p < rows (projs ! j) \<and> 0 < cols (projs ! j))")
    case True
    then show ?thesis by (auto simp: x feature_step_pair)
  next
    case False
    with Cons.prems x have "\<exists>pj\<in>set xs. snd pj < length projs \<and>
             \<not> (fst pj < rows (projs ! snd pj) \<and> 0 < cols (projs ! snd pj))"
      by auto
    then have "\<And>fr. foldM (feature_step cfg projs) xs fr = Inl OutOfBounds"
      by (rule Cons.IH)
    then show ?thesis
      by (simp add: x feature_step_pair)
  qed
qed

lemma feature_loop_result:
  assumes "foldM (feature_step cfg projs) xs fr = Inr fr'"
  shows "length fr' = length fr \<and>
         (\<forall>pj\<in>set xs. snd pj < length projs \<longrightarrow>
              fst pj < rows (projs ! snd pj) \<and> 0 < cols (projs ! snd pj)) \<and>
         (\<forall>idx<length fr. fr' ! idx \<noteq> None \<longleftrightarrow>
            fr ! idx \<noteq> None \<or>
            (\<exists>pj\<in>set xs. snd pj < length projs \<and> fst pj * n_characters cfg + snd pj = idx))"
  using assms
proof (induction xs arbitrary: fr)
  case Nil
  then show ?case by simp
next
  case (Cons x xs)
  obtain p j where x: "x = (p, j)" by (cases x)
  show ?case
  proof (cases "j < length projs")
    case False
    with Cons.prems have "foldM (feature_step cfg projs) xs fr = Inr fr'"
      by (simp add: x feature_step_pair)
    from Cons.IH [OF this] False show ?thesis by (auto simp: x)
  next
    case True
    with Cons.prems have ok: "p < rows (projs ! j) \<and> 0 < cols (projs ! j)"
      by (auto simp: x feature_step_pair split: if_splits)
    with True Cons.prems have
      "foldM (feature_step cfg projs) xs
         (fr[p * n_characters cfg + j := Some (data (projs ! j) ! p ! 0)]) = Inr fr'"
      by (simp add: x feature_step_pair)
    from Cons.IH [OF this] have
      len: "length fr' = length fr" and
      oks: "\<forall>pj\<in>set xs. snd pj < length projs \<longrightarrow>
              fst pj < rows (projs ! snd pj) \<and> 0 < cols (projs ! snd pj)" and
      ent: "\<forall>idx<length fr. fr' ! idx \<noteq> None \<longleftrightarrow>
            fr[p * n_characters cfg + j := Some (data (projs ! j) ! p ! 0)] ! idx \<noteq> None \<or>
            (\<exists>pj\<in>set xs. snd pj < length projs \<and> fst pj * n_characters cfg + snd pj = idx)"
      by simp_all
    have "\<forall>idx<length fr. fr' ! idx \<noteq> None \<longleftrightarrow>
            fr ! idx \<noteq> None \<or>
            (\<exists>pj\<in>set (x # xs). snd pj < length projs \<and> fst pj * n_characters cfg + snd pj = idx)"
    proof (intro allI impI)
      fix idx assume idx: "idx < length fr"
      show "fr' ! idx \<noteq> None \<longleftrightarrow>
            fr ! idx \<noteq> None \<or>
            (\<exists>pj\<in>set (x # xs). snd pj < length projs \<and> fst pj * n_characters cfg + snd pj = idx)"
        using ent idx True by (cases "idx = p * n_characters cfg + j") (auto simp: x)
    qed
    with len oks ok True show ?thesis by (auto simp: x)
  qed
qed

lemma feature_loop_succeeds:
  assumes "\<forall>pj\<in>set xs. snd pj < length projs \<longrightarrow>
              fst pj < rows (projs ! snd pj) \<and> 0 < cols (projs ! snd pj)"
  shows "\<exists>fr'. foldM (feature_step cfg projs) xs fr = Inr fr'"
  using assms
proof (induction xs arbitrary: fr)
  case Nil
  then show ?case by simp
next
  case (Cons x xs)
  obtain p j where x: "x = (p, j)" by (cases x)
  from Cons.prems have "\<forall>pj\<in>set xs. snd pj < length projs \<longrightarrow>
              fst pj < rows (projs ! snd pj) \<and> 0 < cols (projs ! snd pj)" by simp
  then have "\<And>fr. \<exists>fr'. foldM (feature_step cfg projs) xs fr = Inr fr'" by (rule Cons.IH)
  with Cons.prems show ?case
    by (simp add: x feature_step_pair)
qed

lemma index_unique:
  assumes "p' * nc + j' = p * nc + j" "j < nc" "j' < (nc::nat)"
  shows "p' = p \<and> j' = j"
proof -
  have "(p' * nc + j') div nc = p'" "(p * nc + j) div nc = p"
       "(p' * nc + j') mod nc = j'" "(p * nc + j) mod nc = j"
    using assms(2,3) by simp_all
  with assms(1) show ?thesis by metis
qed

lemma get_feature_row_unfold:
  assumes G: "construct n = Inr G" and V: "wf_matrix V"
  shows "get_feature_row V cfg G =
     foldM (feature_step cfg (map (projection_matrix G V) [0..<min (rows V) n]))
       (List.product [0..<n_positions cfg] [0..<n_characters cfg])
       (replicate (n_positions cfg * n_characters cfg) None)"
  by (simp add: get_feature_row_def decompose_into_characters_list [OF G V])

lemma projection_dims:
  "rows (projection_matrix G V j) = rows V"
  "cols (projection_matrix G V j) = cols V"
  by (simp_all add: projection_matrix_def rows_def)

lemma get_feature_row_succeeds_iff:
  assumes G: "construct n = Inr G" and V: "wf_matrix V"
  shows "(\<exists>fr. get_feature_row V cfg G = Inr fr) \<longleftrightarrow>
         (\<forall>p<n_positions cfg. \<forall>j<n_characters cfg. j < min (rows V) n \<longrightarrow> p < rows V \<and> 0 < cols V)"
proof (cases "\<forall>p<n_positions cfg. \<forall>j<n_characters cfg. j < min (rows V) n \<longrightarrow> p < rows V \<and> 0 < cols V")
  case True
  let ?projs = "map (projection_matrix G V) [0..<min (rows V) n]"
  from True have "\<forall>pj\<in>set (List.product [0..<n_positions cfg] [0..<n_characters cfg]).
      snd pj < length ?projs \<longrightarrow> fst pj < rows (?projs ! snd pj) \<and> 0 < cols (?projs ! snd pj)"
    by (auto simp: projection_dims)
  then have "\<exists>fr. get_feature_row V cfg G = Inr fr"
    unfolding get_feature_row_unfold [OF G V] by (rule feature_loop_succeeds)
  with True show ?thesis by (simp only: simp_thms)
next
  case False
  let ?projs = "map (projection_matrix G V) [0..<min (rows V) n]"
  from False obtain p j where pj: "p < n_positions cfg" "j < n_characters cfg"
      "j < min (rows V) n" "\<not> (p < rows V \<and> 0 < cols V)"
    by blast
  then have "\<exists>pj\<in>set (List.product [0..<n_positions cfg] [0..<n_characters cfg]).
      snd pj < length ?projs \<and>
      \<not> (fst pj < rows (?projs ! snd pj) \<and> 0 < cols (?projs ! snd pj))"
    by (intro bexI [of _ "(p, j)"]) (simp_all add: projection_dims)
  then have "get_feature_row V cfg G = Inl OutOfBounds"
    unfolding get_feature_row_unfold [OF G V] by (rule feature_loop_fails)
  then have "\<not> (\<exists>fr. get_feature_row V cfg G = Inr fr)" by simp
  with False show ?thesis by (simp only: simp_thms)
qed

lemma get_feature_row_assigned:
  assumes G: "construct n = Inr G" and V: "wf_matrix V"
    and r: "get_feature_row V cfg G = Inr fr"
  shows "length fr = n_positions cfg * n_characters cfg"
    and "p < n_positions cfg \<Longrightarrow> j < n_characters cfg \<Longrightarrow>
         fr ! (p * n_characters cfg + j) \<noteq> None \<longleftrightarrow> j < min (rows V) n"
proof -
  let ?projs = "map (projection_matrix G V) [0..<min (rows V) n]"
  let ?nc = "n_characters cfg"
  note res = feature_loop_result [OF r [unfolded get_feature_row_unfold [OF G V]]]
  from res show len: "length fr = n_positions cfg * n_characters cfg" by simp
  assume p: "p < n_positions cfg" and j: "j < n_characters cfg"
  have idx: "p * ?nc + j < n_positions cfg * ?nc" by (rule index_bound [OF p j])
  from res idx have "fr ! (p * ?nc + j) \<noteq> None \<longleftrightarrow>
      (\<exists>pj\<in>set (List.product [0..<n_positions cfg] [0..<?nc]).
          snd pj < length ?projs \<and> fst pj * ?nc + snd pj = p * ?nc + j)"
    by simp
  also have "\<dots> \<longleftrightarrow> j < min (rows V) n"
  proof
    assume "\<exists>pj\<in>set (List.product [0..<n_positions cfg] [0..<?nc]).
          snd pj < length ?projs \<and> fst pj * ?nc + snd pj = p * ?nc + j"
    then obtain p' j' where "j' < ?nc" "j' < min (rows V) n" "p' * ?nc + j' = p * ?nc + j"
      by auto
    with index_unique [OF _ j, of p' j' p] show "j < min (rows V) n" by simp
  next
    assume "j < min (rows V) n"
    with p j show "\<exists>pj\<in>set (List.product [0..<n_positions cfg] [0..<?nc]).
          snd pj < length ?projs \<and> fst pj * ?nc + snd pj = p * ?nc + j"
      by (intro bexI [of _ "(p, j)"]) simp_all
  qed
  finally show "fr ! (p * ?nc + j) \<noteq> None \<longleftrightarrow> j < min (rows V) n" .
qed

text \<open>
  Claim C9, as amended. For a group of the order \<open>n_positions\<close> and a signal \<open>V\<close>,
  \<open>get_feature_row\<close> returns with every component of its output assigned exactly when
  \<open>n_characters = 0\<close> (the output is then empty) or
  \<open>n_characters \<le> n_positions \<le> rows V\<close> and \<open>V\<close> has a column. Whenever it returns, the
  output has length \<open>n_positions * n_characters\<close> and its component \<open>(p, j)\<close> is assigned
  exactly when \<open>j < min (rows V) n_positions\<close>.
\<close>

theorem get_feature_row_fully_assigned:
  assumes G: "construct (n_positions cfg) = Inr G" and V: "wf_matrix V"
  shows "((\<exists>fr. get_feature_row V cfg G = Inr fr \<and> list_all (\<lambda>x. x \<noteq> None) fr) \<longleftrightarrow>
            n_characters cfg = 0 \<or>
            (n_characters cfg \<le> n_positions cfg \<and> n_positions cfg \<le> rows V \<and> 0 < cols V)) \<and>
         (\<forall>fr. get_feature_row V cfg G = Inr fr \<longrightarrow>
            length fr = n_positions cfg * n_characters cfg \<and>
            (\<forall>p<n_positions cfg. \<forall>j<n_characters cfg.
               fr ! (p * n_characters cfg + j) \<noteq> None \<longleftrightarrow> j < min (rows V) (n_positions cfg)))"
proof (intro conjI allI impI)
  let ?np = "n_positions cfg" and ?nc = "n_characters cfg"
  have np: "0 < ?np" using G by (simp add: construct_Inr)
  show "(\<exists>fr. get_feature_row V cfg G = Inr fr \<and> list_all (\<lambda>x. x \<noteq> None) fr) \<longleftrightarrow>
            ?nc = 0 \<or> (?nc \<le> ?np \<and> ?np \<le> rows V \<and> 0 < cols V)"
  proof
    assume "\<exists>fr. get_feature_row V cfg G = Inr fr \<and> list_all (\<lambda>x. x \<noteq> None) fr"
    then obtain fr where fr: "get_feature_row V cfg G = Inr fr"
      and all: "list_all (\<lambda>x. x \<noteq> None) fr" by blast
    show "?nc = 0 \<or> (?nc \<le> ?np \<and> ?np \<le> rows V \<and> 0 < cols V)"
    proof (cases "?nc = 0")
      case True
      then show ?thesis by simp
    next
      case False
      then have p: "?np - 1 < ?np" and j: "?nc - 1 < ?nc" using np by simp_all
      have "(?np - 1) * ?nc + (?nc - 1) < length fr"
        using index_bound [OF p j] get_feature_row_assigned(1) [OF G V fr] by simp
      with all have "fr ! ((?np - 1) * ?nc + (?nc - 1)) \<noteq> None"
        by (simp add: list_all_length)
      then have m: "?nc - 1 < min (rows V) ?np"
        using get_feature_row_assigned(2) [OF G V fr p j] by simp
      from fr have "\<exists>fr. get_feature_row V cfg G = Inr fr" by blast
      then have "\<forall>p<?np. \<forall>j<?nc. j < min (rows V) ?np \<longrightarrow> p < rows V \<and> 0 < cols V"
        by (simp only: get_feature_row_succeeds_iff [OF G V])
      with p j m have "?np - 1 < rows V \<and> 0 < cols V" by blast
      with m False np show ?thesis by auto
    qed
  next
    assume rhs: "?nc = 0 \<or> (?nc \<le> ?np \<and> ?np \<le> rows V \<and> 0 < cols V)"
    then have "\<forall>p<?np. \<forall>j<?nc. j < min (rows V) ?np \<longrightarrow> p < rows V \<and> 0 < cols V"
      by auto
    then have "\<exists>fr. get_feature_row V cfg G = Inr fr"
      by (simp only: get_feature_row_succeeds_iff [OF G V])
    then obtain fr where fr: "get_feature_row V cfg G = Inr fr" by blast
    have len: "length fr = ?np * ?nc" by (rule get_feature_row_assigned(1) [OF G V fr])
    have "fr ! idx \<noteq> None" if idx: "idx < length fr" for idx
    proof -
      from idx len have nc: "0 < ?nc" by (cases "?nc = 0") simp_all
      with rhs have b: "?nc \<le> ?np" "?np \<le> rows V" by simp_all
      have j: "idx mod ?nc < ?nc" using nc by simp
      have p: "idx div ?nc < ?np"
        using idx len nc by (simp add: less_mult_imp_div_less)
      have "fr ! (idx div ?nc * ?nc + idx mod ?nc) \<noteq> None"
        using get_feature_row_assigned(2) [OF G V fr p j] j b by simp
      then show ?thesis by simp
    qed
    then have "list_all (\<lambda>x. x \<noteq> None) fr" by (simp add: list_all_length)
    with fr show "\<exists>fr. get_feature_row V cfg G = Inr fr \<and> list_all (\<lambda>x. x \<noteq> None) fr"
      by blast
  qed
next
  fix fr assume fr: "get_feature_row V cfg G = Inr fr"
  show "length fr = n_positions cfg * n_characters cfg"
    by (rule get_feature_row_assigned(1) [OF G V fr])
next
  fix fr p j
  assume fr: "get_feature_row V cfg G = Inr fr"
    and p: "p < n_positions cfg" and j: "j < n_characters cfg"
  show "fr ! (p * n_characters cfg + j) \<noteq> None \<longleftrightarrow> j < min (rows V) (n_positions cfg)"
    by (rule get_feature_row_assigned(2) [OF G V fr p j])
qed

lemma construct_1:
  "construct 1 = Inr \<lparr>n_order = 1, omega = 1, characters = \<lparr>data = [[1]], cols = 1\<rparr>\<rparr>"
  by (simp add: construct_def compute_character_table_def)

lemma feature_row_of_longer_signal:
  "get_feature_row \<lparr>data = [[1], [2]], cols = 1\<rparr>
     \<lparr>n_positions = 1, n_characters = 1, d_model = 1\<rparr>
     \<lparr>n_order = 1, omega = 1, characters = \<lparr>data = [[1]], cols = 1\<rparr>\<rparr> = Inr [Some 1]"
  by (simp add: get_feature_row_def decompose_into_characters_def
      project_onto_character_def project_step_def character_def coeff_def
      rows_def upt_4 rotate_m_def add_scaled_def Zero_def
      div_scalar_def Let_def feature_step_def)

theorem get_feature_row_fully_assigned_witness:
  "construct (n_positions \<lparr>n_positions = 1, n_characters = 1, d_model = 1\<rparr>)
     = Inr \<lparr>n_order = 1, omega = 1, characters = \<lparr>data = [[1]], cols = 1\<rparr>\<rparr> \<and>
   wf_matrix \<lparr>data = [[1], [2::complex]], cols = 1\<rparr> \<and>
   (\<exists>fr. get_feature_row \<lparr>data = [[1], [2]], cols = 1\<rparr>
           \<lparr>n_positions = 1, n_characters = 1, d_model = 1\<rparr>
           \<lparr>n_order = 1, omega = 1, characters = \<lparr>data = [[1]], cols = 1\<rparr>\<rparr> = Inr fr \<and>
         list_all (\<lambda>x. x \<noteq> None) fr)"
proof -
  have c: "construct (n_positions \<lparr>n_positions = 1, n_characters = 1, d_model = 1\<rparr>)
     = Inr \<lparr>n_order = 1, omega = 1, characters = \<lparr>data = [[1]], cols = 1\<rparr>\<rparr>"
    using construct_1 by simp
  have w: "wf_matrix \<lparr>data = [[1], [2::complex]], cols = 1\<rparr>" by (simp add: wf_matrix_def)
  show ?thesis
    using get_feature_row_fully_assigned [OF c w] c w by (simp add: rows_def)
qed

text \<open>
  Claim C9 as stated fails: with \<open>n_positions = n_characters = 1\<close> and a signal of two rows,
  every component of the output is assigned although \<open>V\<close> does not have exactly
  \<open>n_positions\<close> rows.
\<close>

theorem get_feature_row_counterexample:
  "construct (n_positions \<lparr>n_positions = 1, n_characters = 1, d_model = 1\<rparr>)
     = Inr \<lparr>n_order = 1, omega = 1, characters = \<lparr>data = [[1]], cols = 1\<rparr>\<rparr> \<and>
   get_feature_row \<lparr>data = [[1], [2]], cols = 1\<rparr>
     \<lparr>n_positions = 1, n_characters = 1, d_model = 1\<rparr>
     \<lparr>n_order = 1, omega = 1, characters = \<lparr>data = [[1]], cols = 1\<rparr>\<rparr> = Inr [Some 1] \<and>
   list_all (\<lambda>x. x \<noteq> None) [Some (1::complex)] \<and>
   rows \<lparr>data = [[1], [2::complex]], cols = 1\<rparr>
     \<noteq> n_positions \<lparr>n_positions = 1, n_characters = 1, d_model = 1\<rparr>"
  using construct_1 feature_row_of_longer_signal by (simp add: rows_def)

section \<open>Learning character weights\<close>

lemma decompose_unit:
  "decompose_into_characters \<lparr>n_order = 1, omega = 1, characters = \<lparr>data = [[1]], cols = 1\<rparr>\<rparr>
     \<lparr>data = [[x]], cols = 1\<rparr> = Inr [\<lparr>data = [[x]], cols = 1\<rparr>]"
  by (simp add: decompose_into_characters_def
      project_onto_character_def project_step_def character_def coeff_def
      rows_def upt_4 rotate_m_def add_scaled_def Zero_def div_scalar_def Let_def)

lemma assemble_unit:
  "assemble_character_system \<lparr>n_order = 1, omega = 1, characters = \<lparr>data = [[1]], cols = 1\<rparr>\<rparr>
     [\<lparr>data = [[1]], cols = 1\<rparr>] [\<lparr>data = [[1]], cols = 1\<rparr>]
     = Inr (\<lparr>data = [[1]], cols = 1\<rparr>, [1])"
  by (simp add: assemble_character_system_def sample_block_def decompose_unit flat_coeff_def
      coeff_def rows_def upt_4 del: One_nat_def)

lemma learn_character_weights_fallback:
  "learn_character_weights NO_EIGEN3 s G Vs Ts = Inr c \<Longrightarrow> c = replicate (n_order G) 0"
  by (auto simp: learn_character_weights_def split: sum.splits prod.splits)

text \<open>
  Claim C1. Without \<^verbatim>\<open>USE_EIGEN3\<close>, for the group of order 1 with the single sample \<open>(1)\<close>
  and target \<open>(1)\<close>, the assembled system is \<open>A = (1)\<close>, \<open>b = (1)\<close>, and
  \<open>learn_character_weights\<close> returns the zero vector, whose residual is 1, while the
  coefficient 1 has residual 0.
\<close>

theorem learn_character_weights_returns_zero:
  "construct 1 = Inr \<lparr>n_order = 1, omega = 1, characters = \<lparr>data = [[1]], cols = 1\<rparr>\<rparr> \<and>
   assemble_character_system \<lparr>n_order = 1, omega = 1, characters = \<lparr>data = [[1]], cols = 1\<rparr>\<rparr>
     [\<lparr>data = [[1]], cols = 1\<rparr>] [\<lparr>data = [[1]], cols = 1\<rparr>]
     = Inr (\<lparr>data = [[1]], cols = 1\<rparr>, [1]) \<and>
   learn_character_weights NO_EIGEN3 s
     \<lparr>n_order = 1, omega = 1, characters = \<lparr>data = [[1]], cols = 1\<rparr>\<rparr>
     [\<lparr>data = [[1]], cols = 1\<rparr>] [\<lparr>data = [[1]], cols = 1\<rparr>] = Inr [0] \<and>
   squaredNorm (vec_sub (mat_vec \<lparr>data = [[1]], cols = 1\<rparr> [0]) [1]) = 1 \<and>
   squaredNorm (vec_sub (mat_vec \<lparr>data = [[1]], cols = 1\<rparr> [1]) [1]) = 0"
proof -
  have l: "learn_character_weights NO_EIGEN3 s
     \<lparr>n_order = 1, omega = 1, characters = \<lparr>data = [[1]], cols = 1\<rparr>\<rparr>
     [\<lparr>data = [[1]], cols = 1\<rparr>] [\<lparr>data = [[1]], cols = 1\<rparr>] = Inr [0]"
    by (simp add: learn_character_weights_def assemble_unit del: One_nat_def) simp
  have r: "squaredNorm (vec_sub (mat_vec \<lparr>data = [[1]], cols = 1\<rparr> [0]) [1]) = 1"
    "squaredNorm (vec_sub (mat_vec \<lparr>data = [[1]], cols = 1\<rparr> [1]) [1]) = 0"
    by (simp_all add: squaredNorm_def vec_sub_def mat_vec_def)
  show ?thesis using construct_1 assemble_unit l r by (intro conjI)
qed

section \<open>The residual of a fit\<close>


lemma EPSILON_pos: "0 < EPSILON"
  by (simp add: EPSILON_def)


lemma fit_Inr:
  assumes "fit llt_solve unwritten learner problem = (Inr sol, learner')"
  shows "\<exists>local_result l1 gluing_result l2 A_opt b_sheaf l3.
           build_local_systems problem learner = (Inr local_result, l1) \<and>
           build_gluing_system problem local_result l1 = (Inr gluing_result, l2) \<and>
           assemble_global_system local_result gluing_result = Inr (A_opt, b_sheaf) \<and>
           unpack_solution (solve_global llt_solve (resolve unwritten A_opt) b_sheaf) local_result
             (if squaredNorm (vec_sub (mat_vec (resolve unwritten A_opt)
                    (solve_global llt_solve (resolve unwritten A_opt) b_sheaf)) b_sheaf) < EPSILON
              then 0
              else squaredNorm (vec_sub (mat_vec (resolve unwritten A_opt)
                    (solve_global llt_solve (resolve unwritten A_opt) b_sheaf)) b_sheaf)) l2
             = (Inr sol, l3) \<and>
           learner' = l3\<lparr>solution := sol, fitted := True\<rparr>"
  using assms
  by (auto simp: fit_def Let_def split: sum.splits prod.splits split del: if_split)

lemma feature_row_unit:
  "get_feature_row \<lparr>data = [[x]], cols = 1\<rparr> \<lparr>n_positions = 1, n_characters = 1, d_model = 1\<rparr>
     \<lparr>n_order = 1, omega = 1, characters = \<lparr>data = [[1]], cols = 1\<rparr>\<rparr> = Inr [Some x]"
  by (simp add: get_feature_row_def decompose_unit feature_step_def coeff_def rows_def upt_4
      del: One_nat_def) simp

lemma build_local_patch_unit:
  "build_local_patch (unit_patch nm x t) (result, c) l =
     (Inr (\<lparr>matrices = matrices result @ [\<lparr>data = [[Some x]], cols = 1\<rparr>],
            target_vectors = target_vectors result @ [[t]],
            patch_offsets = AList.update nm c (patch_offsets result),
            patch_n_weights = AList.update nm 1 (patch_n_weights result)\<rparr>, c + 1),
      l\<lparr>patch_configs := (patch_configs l)(nm \<mapsto> \<lparr>n_positions = 1, n_characters = 1, d_model = 1\<rparr>)\<rparr>)"
  by (simp add: build_local_patch_def unit_patch_def construct_1 local_row_def feature_row_unit
      coeff_def rows_def upt_4 del: One_nat_def)

lemma build_local_patch_empty:
  "build_local_patch (empty_patch nm) (result, c) l =
     (Inl InvalidOrder,
      l\<lparr>patch_configs := (patch_configs l)(nm \<mapsto> \<lparr>n_positions = 0, n_characters = 0, d_model = 1\<rparr>)\<rparr>)"
  by (simp add: build_local_patch_def empty_patch_def construct_def)




lemma fit_failing_patch:
  "fit s u (new_learner False) \<lparr>patches = [unit_patch ''a'' 2 4, empty_patch ''b''], gluings = []\<rparr>
   = (Inl InvalidOrder,
      (new_learner False)\<lparr>patch_configs :=
         [''a'' \<mapsto> \<lparr>n_positions = 1, n_characters = 1, d_model = 1\<rparr>,
          ''b'' \<mapsto> \<lparr>n_positions = 0, n_characters = 0, d_model = 1\<rparr>]\<rparr>)"
  by (simp add: fit_def build_local_systems_def build_local_patch_unit build_local_patch_empty
      new_learner_def)

lemma fit_unknown_gluing:
  "fit s u (new_learner False)
     \<lparr>patches = [unit_patch ''p'' 2 4],
      gluings = [\<lparr>patch_1 = ''p'', patch_2 = ''q'',
                  constraint_data_1 = \<lparr>data = [[2]], cols = 1\<rparr>,
                  constraint_data_2 = \<lparr>data = [[2]], cols = 1\<rparr>\<rparr>]\<rparr>
   = (Inl InvalidOrder,
      (new_learner False)\<lparr>patch_configs :=
         [''p'' \<mapsto> \<lparr>n_positions = 1, n_characters = 1, d_model = 1\<rparr>,
          ''q'' \<mapsto> \<lparr>n_positions = 0, n_characters = 0, d_model = 0\<rparr>]\<rparr>)"
  by (simp add: fit_def build_local_systems_def build_local_patch_unit
      build_gluing_system_def gluing_step_def subscript_def gluing_row_def construct_1
      construct_def new_learner_def del: One_nat_def)



section \<open>What a failed fit leaves behind\<close>

lemma foldSM_preserves:
  assumes "\<And>x r s res s'. f x r s = (res, s') \<Longrightarrow> P s \<Longrightarrow> P s'"
    and "foldSM f xs r s = (res, s')" and "P s"
  shows "P s'"
  using assms(2,3)
proof (induction xs arbitrary: r s)
  case Nil
  then show ?case by simp
next
  case (Cons x xs)
  obtain r1 s1 where step: "f x r s = (r1, s1)" by (cases "f x r s")
  from step Cons.prems(2) have P1: "P s1" by (rule assms(1))
  show ?case
  proof (cases r1)
    case (Inl e)
    with Cons.prems(1) step have "s' = s1" by simp
    with P1 show ?thesis by simp
  next
    case (Inr r')
    with Cons.prems(1) step have "foldSM f xs r' s1 = (res, s')" by simp
    from Cons.IH [OF this P1] show ?thesis .
  qed
qed

lemma build_local_patch_commit:
  "build_local_patch patch acc s = (res, s') \<Longrightarrow> same_commit l s \<Longrightarrow> same_commit l s'"
  by (auto simp: build_local_patch_def same_commit_def Let_def split: sum.splits prod.splits)

lemma build_local_systems_commit:
  assumes "build_local_systems problem l = (res, l')"
  shows "same_commit l l'"
proof -
  obtain r s where f: "foldSM build_local_patch (patches problem)
             (\<lparr>matrices = [], target_vectors = [], patch_offsets = [], patch_n_weights = []\<rparr>, 0) l
           = (r, s)"
    by (cases "foldSM build_local_patch (patches problem)
             (\<lparr>matrices = [], target_vectors = [], patch_offsets = [], patch_n_weights = []\<rparr>, 0) l")
  have "same_commit l s"
  proof (rule foldSM_preserves [where P = "same_commit l", OF _ f])
    show "same_commit l l" by (simp add: same_commit_def)
  next
    fix x r s res s'
    assume "build_local_patch x r s = (res, s')" "same_commit l s"
    then show "same_commit l s'" by (rule build_local_patch_commit)
  qed
  moreover from assms f have "l' = s"
    by (auto simp: build_local_systems_def split: sum.splits prod.splits)
  ultimately show ?thesis by simp
qed

lemma gluing_step_commit:
  "gluing_step li tw g rws s = (res, s') \<Longrightarrow> same_commit l s \<Longrightarrow> same_commit l s'"
  by (auto simp: gluing_step_def same_commit_def split: sum.splits prod.splits)

lemma build_gluing_system_commit:
  assumes "build_gluing_system problem li l = (res, l')"
  shows "same_commit l l'"
proof (cases "gluings problem = []")
  case True
  with assms show ?thesis by (simp add: build_gluing_system_def same_commit_def)
next
  case False
  let ?tw = "sum_list (map snd (patch_n_weights li))"
  obtain r s where f: "foldSM (gluing_step li ?tw) (gluings problem) [] l = (r, s)"
    by (cases "foldSM (gluing_step li ?tw) (gluings problem) [] l")
  have "same_commit l s"
  proof (rule foldSM_preserves [where P = "same_commit l", OF _ f])
    show "same_commit l l" by (simp add: same_commit_def)
  next
    fix x r s res s'
    assume "gluing_step li ?tw x r s = (res, s')" "same_commit l s"
    then show "same_commit l s'" by (rule gluing_step_commit)
  qed
  moreover from assms f False have "l' = s"
    by (auto simp: build_gluing_system_def Let_def split: sum.splits prod.splits)
  ultimately show ?thesis by simp
qed

lemma unpack_patch_commit:
  "unpack_patch w li entry ws s = (res, s') \<Longrightarrow> same_commit l s \<Longrightarrow> same_commit l s'"
  by (auto simp: unpack_patch_def same_commit_def split: sum.splits prod.splits)

lemma unpack_solution_commit:
  assumes "unpack_solution w li r l = (res, l')"
  shows "same_commit l l'"
proof -
  obtain r0 s where f: "foldSM (unpack_patch w li) (patch_offsets li) Map.empty l = (r0, s)"
    by (cases "foldSM (unpack_patch w li) (patch_offsets li) Map.empty l")
  have "same_commit l s"
  proof (rule foldSM_preserves [where P = "same_commit l", OF _ f])
    show "same_commit l l" by (simp add: same_commit_def)
  next
    fix x r s res s'
    assume "unpack_patch w li x r s = (res, s')" "same_commit l s"
    then show "same_commit l s'" by (rule unpack_patch_commit)
  qed
  moreover from assms f have "l' = s"
    by (auto simp: unpack_solution_def split: sum.splits prod.splits)
  ultimately show ?thesis by simp
qed

lemma same_commit_trans: "same_commit a b \<Longrightarrow> same_commit b c \<Longrightarrow> same_commit a c"
  by (simp add: same_commit_def)

lemma fit_Inl:
  assumes "fit llt_solve unwritten learner problem = (Inl e, learner')"
  shows "same_commit learner learner'"
proof -
  obtain r1 l1 where b1: "build_local_systems problem learner = (r1, l1)"
    by (cases "build_local_systems problem learner")
  note c1 = build_local_systems_commit [OF b1]
  show ?thesis
  proof (cases r1)
    case (Inl e1)
    with assms b1 c1 show ?thesis by (simp add: fit_def)
  next
    case r1: (Inr local_result)
    obtain r2 l2 where b2: "build_gluing_system problem local_result l1 = (r2, l2)"
      by (cases "build_gluing_system problem local_result l1")
    note c2 = same_commit_trans [OF c1 build_gluing_system_commit [OF b2]]
    show ?thesis
    proof (cases r2)
      case (Inl e2)
      with assms b1 r1 b2 c2 show ?thesis by (simp add: fit_def)
    next
      case r2: (Inr gluing_result)
      show ?thesis
      proof (cases "assemble_global_system local_result gluing_result")
        case (Inl e3)
        with assms b1 r1 b2 r2 c2 show ?thesis by (simp add: fit_def)
      next
        case (Inr Ab)
        obtain A_opt b_sheaf where Ab: "Ab = (A_opt, b_sheaf)" by (cases Ab)
        show ?thesis
        proof -
        let ?A = "resolve unwritten A_opt"
        let ?w = "solve_global llt_solve ?A b_sheaf"
        let ?r = "squaredNorm (vec_sub (mat_vec ?A ?w) b_sheaf)"
        obtain r5 l3 where u: "unpack_solution ?w local_result (if ?r < EPSILON then 0 else ?r) l2
            = (r5, l3)"
          by (cases "unpack_solution ?w local_result (if ?r < EPSILON then 0 else ?r) l2")
        note c3 = same_commit_trans [OF c2 unpack_solution_commit [OF u]]
        from assms b1 r1 b2 r2 Inr Ab u have "r5 = Inl e \<and> learner' = l3"
          by (cases r5) (simp_all add: fit_def Let_def)
        with c3 show ?thesis by simp
        qed
      qed
    qed
  qed
qed

text \<open>
  Claim C5, as amended. \<open>fit\<close> either returns a solution, and then the learner is fitted and
  stores that solution, or fails, and then the fitted flag and the stored solution are those
  from before the call.
\<close>

theorem fit_commits_at_the_end:
  assumes "fit llt_solve unwritten learner problem = (res, learner')"
  shows "verbose learner' = verbose learner \<and>
         (case res of
            Inr sol \<Rightarrow> fitted learner' \<and> solution learner' = sol
          | Inl e \<Rightarrow> fitted learner' = fitted learner \<and> solution learner' = solution learner)"
proof (cases res)
  case (Inl e)
  with assms have "same_commit learner learner'" by (simp add: fit_Inl)
  with Inl show ?thesis by (simp add: same_commit_def)
next
  case (Inr sol)
  with assms have f: "fit llt_solve unwritten learner problem = (Inr sol, learner')" by simp
  from fit_Inr [OF f] obtain local_result l1 gluing_result l2 w r l3 where
    b1: "build_local_systems problem learner = (Inr local_result, l1)" and
    b2: "build_gluing_system problem local_result l1 = (Inr gluing_result, l2)" and
    u: "unpack_solution w local_result r l2 = (Inr sol, l3)" and
    l: "learner' = l3\<lparr>solution := sol, fitted := True\<rparr>"
    by blast
  have "same_commit learner l3"
    by (rule same_commit_trans [OF same_commit_trans
          [OF build_local_systems_commit [OF b1] build_gluing_system_commit [OF b2]]
          unpack_solution_commit [OF u]])
  with l Inr show ?thesis by (simp add: same_commit_def)
qed

theorem fit_commits_at_the_end_witness:
  "fit diagonal_solve (\<lambda>i j. 0) (new_learner False)
     \<lparr>patches = [unit_patch ''a'' 2 4, empty_patch ''b''], gluings = []\<rparr>
     = (Inl InvalidOrder,
        (new_learner False)\<lparr>patch_configs :=
           [''a'' \<mapsto> \<lparr>n_positions = 1, n_characters = 1, d_model = 1\<rparr>,
            ''b'' \<mapsto> \<lparr>n_positions = 0, n_characters = 0, d_model = 1\<rparr>]\<rparr>) \<and>
   fitted ((new_learner False)\<lparr>patch_configs :=
           [''a'' \<mapsto> \<lparr>n_positions = 1, n_characters = 1, d_model = 1\<rparr>,
            ''b'' \<mapsto> \<lparr>n_positions = 0, n_characters = 0, d_model = 1\<rparr>]\<rparr>)
     = fitted (new_learner False) \<and>
   solution ((new_learner False)\<lparr>patch_configs :=
           [''a'' \<mapsto> \<lparr>n_positions = 1, n_characters = 1, d_model = 1\<rparr>,
            ''b'' \<mapsto> \<lparr>n_positions = 0, n_characters = 0, d_model = 1\<rparr>]\<rparr>)
     = solution (new_learner False)"
  using fit_commits_at_the_end [OF fit_failing_patch [of diagonal_solve "\<lambda>i j. 0"]]
    fit_failing_patch [of diagonal_solve "\<lambda>i j. 0"]
  by simp

text \<open>
  Claim C5 as stated fails: a failed \<open>fit\<close> leaves in the registry the configurations of
  the patches it had reached.
\<close>

theorem fit_failure_keeps_registry_counterexample:
  "fit diagonal_solve (\<lambda>i j. 0) (new_learner False)
     \<lparr>patches = [unit_patch ''a'' 2 4, empty_patch ''b''], gluings = []\<rparr>
     = (Inl InvalidOrder,
        (new_learner False)\<lparr>patch_configs :=
           [''a'' \<mapsto> \<lparr>n_positions = 1, n_characters = 1, d_model = 1\<rparr>,
            ''b'' \<mapsto> \<lparr>n_positions = 0, n_characters = 0, d_model = 1\<rparr>]\<rparr>) \<and>
   (new_learner False)\<lparr>patch_configs :=
           [''a'' \<mapsto> \<lparr>n_positions = 1, n_characters = 1, d_model = 1\<rparr>,
            ''b'' \<mapsto> \<lparr>n_positions = 0, n_characters = 0, d_model = 1\<rparr>]\<rparr>
     \<noteq> new_learner False"
proof -
  have "patch_configs ((new_learner False)\<lparr>patch_configs :=
           [''a'' \<mapsto> \<lparr>n_positions = 1, n_characters = 1, d_model = 1\<rparr>,
            ''b'' \<mapsto> \<lparr>n_positions = 0, n_characters = 0, d_model = 1\<rparr>]\<rparr>) ''a''
        \<noteq> patch_configs (new_learner False) ''a''"
    by (simp add: new_learner_def)
  then have "(new_learner False)\<lparr>patch_configs :=
           [''a'' \<mapsto> \<lparr>n_positions = 1, n_characters = 1, d_model = 1\<rparr>,
            ''b'' \<mapsto> \<lparr>n_positions = 0, n_characters = 0, d_model = 1\<rparr>]\<rparr>
     \<noteq> new_learner False"
    by metis
  with fit_failing_patch [of diagonal_solve "\<lambda>i j. 0"] show ?thesis by (intro conjI)
qed

section \<open>Gluing constraints on unknown patches\<close>

lemma foldSM_preserves_on:
  assumes "\<And>x r s res s'. x \<in> set xs \<Longrightarrow> f x r s = (res, s') \<Longrightarrow> P s \<Longrightarrow> P s'"
    and "foldSM f xs r s = (res, s')" and "P s"
  shows "P s'"
  using assms
proof (induction xs arbitrary: r s)
  case Nil
  then show ?case by simp
next
  case (Cons x xs)
  obtain r1 s1 where step: "f x r s = (r1, s1)" by (cases "f x r s")
  have "x \<in> set (x # xs)" by simp
  from Cons.prems(1) [OF this step Cons.prems(3)] have P1: "P s1" .
  show ?case
  proof (cases r1)
    case (Inl e)
    with Cons.prems(2) step have "s' = s1" by simp
    with P1 show ?thesis by simp
  next
    case (Inr r')
    with Cons.prems(2) step have f': "foldSM f xs r' s1 = (res, s')" by simp
    have rest: "P s'" if "xa \<in> set xs" "f xa r s = (res, s')" "P s" for xa r s res s'
      using Cons.prems(1) [of xa r s res s'] that by simp
    show ?thesis by (rule Cons.IH [OF rest f' P1])
  qed
qed

lemma build_local_patch_registry:
  "build_local_patch patch acc s = (res, s') \<Longrightarrow> name patch \<noteq> k \<Longrightarrow>
     patch_configs s' k = patch_configs s k"
  by (auto simp: build_local_patch_def Let_def split: sum.splits prod.splits)

lemma build_local_systems_registry:
  assumes "build_local_systems problem l = (res, l')"
    and "k \<notin> name ` set (patches problem)"
  shows "patch_configs l' k = patch_configs l k"
proof -
  obtain r s where f: "foldSM build_local_patch (patches problem)
             (\<lparr>matrices = [], target_vectors = [], patch_offsets = [], patch_n_weights = []\<rparr>, 0) l
           = (r, s)"
    by (cases "foldSM build_local_patch (patches problem)
             (\<lparr>matrices = [], target_vectors = [], patch_offsets = [], patch_n_weights = []\<rparr>, 0) l")
  have "patch_configs s k = patch_configs l k"
  proof (rule foldSM_preserves_on [where P = "\<lambda>s. patch_configs s k = patch_configs l k", OF _ f])
    show "patch_configs l k = patch_configs l k" by simp
  next
    fix x r s res s'
    assume x: "x \<in> set (patches problem)" and b: "build_local_patch x r s = (res, s')"
      and p: "patch_configs s k = patch_configs l k"
    from x assms(2) have "name x \<noteq> k" by auto
    from build_local_patch_registry [OF b this] p
    show "patch_configs s' k = patch_configs l k" by simp
  qed
  moreover from assms(1) f have "l' = s"
    by (auto simp: build_local_systems_def split: sum.splits prod.splits)
  ultimately show ?thesis by simp
qed

lemma gluing_row_zero_order:
  assumes "n_positions config1 = 0 \<or> n_positions config2 = 0"
  shows "gluing_row li tw g config1 config2 = Inl InvalidOrder"
  using assms by (auto simp: gluing_row_def construct_def)

lemma gluing_step_unregistered:
  assumes "patch_configs l (patch_1 g) = None \<or> patch_configs l (patch_2 g) = None"
  shows "\<exists>l'. gluing_step li tw g rws l = (Inl InvalidOrder, l')"
proof -
  obtain config1 m1 where s1: "subscript (patch_configs l) (patch_1 g) = (config1, m1)"
    by (cases "subscript (patch_configs l) (patch_1 g)")
  obtain config2 m2 where s2: "subscript m1 (patch_2 g) = (config2, m2)"
    by (cases "subscript m1 (patch_2 g)")
  have "n_positions config1 = 0 \<or> n_positions config2 = 0"
  proof (cases "patch_configs l (patch_1 g)")
    case None
    with s1 show ?thesis by (auto simp: subscript_def)
  next
    case (Some c)
    with s1 have m1: "m1 = patch_configs l" by (simp add: subscript_def)
    from Some assms have "patch_configs l (patch_2 g) = None" by simp
    with s2 m1 show ?thesis by (auto simp: subscript_def)
  qed
  then have "gluing_row li tw g config1 config2 = Inl InvalidOrder"
    by (rule gluing_row_zero_order)
  with s1 s2 show ?thesis by (simp add: gluing_step_def)
qed

text \<open>
  Claim C4. On a new learner, when the local systems have been built and the first gluing
  constraint names a patch that the problem does not have, \<open>fit\<close> fails with
  \<open>InvalidOrder\<close>, not \<open>UnknownPatch\<close>: the registry lookup inserts an all-zero
  configuration for the unknown name, and the group of order 0 is rejected before the
  offset lookup is reached.
\<close>

theorem fit_unknown_gluing_patch:
  assumes "build_local_systems problem (new_learner v) = (Inr local_result, l1)"
    and "gluings problem = g # gs"
    and "patch_1 g \<notin> name ` set (patches problem) \<or> patch_2 g \<notin> name ` set (patches problem)"
  shows "\<exists>l'. fit llt_solve unwritten (new_learner v) problem = (Inl InvalidOrder, l')"
proof -
  have "patch_configs l1 (patch_1 g) = None \<or> patch_configs l1 (patch_2 g) = None"
    using assms(3) build_local_systems_registry [OF assms(1)]
    by (auto simp: new_learner_def)
  then obtain l2 where
    "gluing_step local_result (sum_list (map snd (patch_n_weights local_result))) g [] l1
       = (Inl InvalidOrder, l2)"
    using gluing_step_unregistered by blast
  then have "build_gluing_system problem local_result l1 = (Inl InvalidOrder, l2)"
    using assms(2) by (simp add: build_gluing_system_def)
  with assms(1) show ?thesis by (simp add: fit_def)
qed

theorem fit_unknown_gluing_patch_witness:
  "build_local_systems
     \<lparr>patches = [unit_patch ''p'' 2 4],
      gluings = [\<lparr>patch_1 = ''p'', patch_2 = ''q'',
                  constraint_data_1 = \<lparr>data = [[2]], cols = 1\<rparr>,
                  constraint_data_2 = \<lparr>data = [[2]], cols = 1\<rparr>\<rparr>]\<rparr> (new_learner False)
     = (Inr \<lparr>matrices = [\<lparr>data = [[Some 2]], cols = 1\<rparr>], target_vectors = [[4]],
             patch_offsets = [(''p'', 0)], patch_n_weights = [(''p'', 1)]\<rparr>,
        (new_learner False)\<lparr>patch_configs :=
           [''p'' \<mapsto> \<lparr>n_positions = 1, n_characters = 1, d_model = 1\<rparr>]\<rparr>) \<and>
   ''q'' \<notin> name ` set [unit_patch ''p'' 2 4] \<and>
   fit diagonal_solve (\<lambda>i j. 0) (new_learner False)
     \<lparr>patches = [unit_patch ''p'' 2 4],
      gluings = [\<lparr>patch_1 = ''p'', patch_2 = ''q'',
                  constraint_data_1 = \<lparr>data = [[2]], cols = 1\<rparr>,
                  constraint_data_2 = \<lparr>data = [[2]], cols = 1\<rparr>\<rparr>]\<rparr>
   = (Inl InvalidOrder,
      (new_learner False)\<lparr>patch_configs :=
         [''p'' \<mapsto> \<lparr>n_positions = 1, n_characters = 1, d_model = 1\<rparr>,
          ''q'' \<mapsto> \<lparr>n_positions = 0, n_characters = 0, d_model = 0\<rparr>]\<rparr>)"
proof -
  let ?g = "\<lparr>patch_1 = ''p'', patch_2 = ''q'',
                  constraint_data_1 = \<lparr>data = [[2]], cols = 1\<rparr>,
                  constraint_data_2 = \<lparr>data = [[2::complex]], cols = 1\<rparr>\<rparr>"
  let ?p = "\<lparr>patches = [unit_patch ''p'' 2 4], gluings = [?g]\<rparr>"
  have b: "build_local_systems ?p (new_learner False)
     = (Inr \<lparr>matrices = [\<lparr>data = [[Some 2]], cols = 1\<rparr>], target_vectors = [[4]],
             patch_offsets = [(''p'', 0)], patch_n_weights = [(''p'', 1)]\<rparr>,
        (new_learner False)\<lparr>patch_configs :=
           [''p'' \<mapsto> \<lparr>n_positions = 1, n_characters = 1, d_model = 1\<rparr>]\<rparr>)"
    by (simp add: build_local_systems_def build_local_patch_unit new_learner_def)
  have q: "''q'' \<notin> name ` set [unit_patch ''p'' 2 4]" by (simp add: unit_patch_def)
  have "\<exists>l'. fit diagonal_solve (\<lambda>i j. 0) (new_learner False) ?p = (Inl InvalidOrder, l')"
    by (rule fit_unknown_gluing_patch [OF b, of ?g "[]"]) (simp_all add: unit_patch_def)
  with b q fit_unknown_gluing [of diagonal_solve "\<lambda>i j. 0"] show ?thesis by (intro conjI)
qed

section \<open>Scenario A\<close>

lemma build_local_systems_two_patches:
  assumes "build_local_systems \<lparr>patches = [a, b], gluings = gs\<rparr> l = (Inr lr, l')"
    and "name a \<noteq> name b"
  shows "\<exists>Ma Mb. matrices lr = [Ma, Mb] \<and>
           cols Ma = n_positions (config a) * n_characters (config a) \<and>
           patch_n_weights lr =
             [(name a, n_positions (config a) * n_characters (config a)),
              (name b, n_positions (config b) * n_characters (config b))]"
  using assms
  by (auto simp: build_local_systems_def build_local_patch_def Let_def
      split: sum.splits prod.splits)

lemma gluing_rows_length:
  "foldSM (gluing_step li tw) gs rws l = (Inr rws', l') \<Longrightarrow> length rws' = length rws + length gs"
proof (induction gs arbitrary: rws l)
  case Nil
  then show ?case by simp
next
  case (Cons g gs)
  obtain r1 l1 where step: "gluing_step li tw g rws l = (r1, l1)"
    by (cases "gluing_step li tw g rws l")
  show ?case
  proof (cases r1)
    case (Inl e)
    with Cons.prems step show ?thesis by simp
  next
    case (Inr rws1)
    with step have "length rws1 = length rws + 1"
      by (auto simp: gluing_step_def split: sum.splits prod.splits)
    moreover from Cons.prems step Inr have "foldSM (gluing_step li tw) gs rws1 l1 = (Inr rws', l')"
      by simp
    then have "length rws' = length rws1 + length gs" by (rule Cons.IH)
    ultimately show ?thesis by simp
  qed
qed

lemma build_gluing_system_dims:
  assumes "gluings problem \<noteq> []"
    and "build_gluing_system problem li l = (Inr gr, l')"
  shows "rows (A_gluing gr) = length (gluings problem) \<and>
         cols (A_gluing gr) = sum_list (map snd (patch_n_weights li))"
proof -
  let ?tw = "sum_list (map snd (patch_n_weights li))"
  obtain r s where f: "foldSM (gluing_step li ?tw) (gluings problem) [] l = (r, s)"
    by (cases "foldSM (gluing_step li ?tw) (gluings problem) [] l")
  with assms obtain rws where r: "r = Inr rws" and gr: "A_gluing gr = \<lparr>data = rws, cols = ?tw\<rparr>"
    by (cases r) (auto simp: build_gluing_system_def Let_def)
  from f r have "length rws = length (gluings problem)"
    using gluing_rows_length [of li ?tw "gluings problem" "[]" l rws s] by simp
  with gr show ?thesis by (simp add: rows_def)
qed

lemma mapM_Inl:
  "mapM f xs = Inl e \<Longrightarrow> \<exists>x\<in>set xs. f x = Inl e"
  by (induction xs) (auto split: sum.splits)

lemma assemble_block_too_wide:
  assumes "matrices lr \<noteq> []" "0 < rows (A_gluing gr)"
    and "cols (matrices lr ! 0) < cols (A_gluing gr)"
  shows "assemble_global_system lr gr = Inl OutOfBounds"
proof -
  let ?tc = "cols (matrices lr ! 0)"
  have g: "place_block (A_gluing gr) ?tc = Inl OutOfBounds"
    using assms(3) by (simp add: place_block_def)
  show ?thesis
  proof (cases "mapM (\<lambda>mat. place_block mat ?tc) (matrices lr)")
    case (Inl e)
    from mapM_Inl [OF Inl] obtain m :: "complex option Matrix"
      where "place_block m ?tc = Inl e" by blast
    then have "e = OutOfBounds" by (simp add: place_block_def split: if_splits)
    with Inl assms(1) show ?thesis by (simp add: assemble_global_system_def)
  next
    case (Inr blocks)
    with assms(1,2) g show ?thesis by (simp add: assemble_global_system_def)
  qed
qed

lemma predict_unfitted: "\<not> fitted l \<Longrightarrow> predict u l nm V = Inl NotFitted"
  by (simp add: predict_def)

text \<open>
  Claim C3. Whatever the samples, targets and gluing data, \<open>fit\<close> on a new learner fails
  for the two patches of Scenario A (6 and 4 weights) with one gluing constraint, so
  \<open>predict\<close> then fails with \<open>NotFitted\<close>: the gluing row has 10 columns and the
  assembled matrix has the 6 columns of the first patch.
\<close>

theorem scenario_A_is_never_fitted:
  "\<exists>e l'. fit llt_solve unwritten (new_learner v)
       \<lparr>patches =
          [\<lparr>name = ''block_a'', V_samples = Va, targets = Ta,
            config = \<lparr>n_positions = 3, n_characters = 2, d_model = da\<rparr>\<rparr>,
           \<lparr>name = ''block_b'', V_samples = Vb, targets = Tb,
            config = \<lparr>n_positions = 2, n_characters = 2, d_model = db\<rparr>\<rparr>],
        gluings = [g]\<rparr> = (Inl e, l') \<and>
     (\<forall>u. predict u l' ''block_a'' V = Inl NotFitted)"
proof -
  let ?a = "\<lparr>name = ''block_a'', V_samples = Va, targets = Ta,
            config = \<lparr>n_positions = 3, n_characters = 2, d_model = da\<rparr>\<rparr>"
  let ?b = "\<lparr>name = ''block_b'', V_samples = Vb, targets = Tb,
            config = \<lparr>n_positions = 2, n_characters = 2, d_model = db\<rparr>\<rparr>"
  let ?p = "\<lparr>patches = [?a, ?b], gluings = [g]\<rparr>"
  obtain r l' where f: "fit llt_solve unwritten (new_learner v) ?p = (r, l')"
    by (cases "fit llt_solve unwritten (new_learner v) ?p")
  have "\<exists>e. r = Inl e"
  proof (cases r)
    case (Inl e)
    then show ?thesis by simp
  next
    case (Inr sol)
    with f have "fit llt_solve unwritten (new_learner v) ?p = (Inr sol, l')" by simp
    from fit_Inr [OF this] obtain lr l1 gr l2 A_opt b_sheaf where
      b1: "build_local_systems ?p (new_learner v) = (Inr lr, l1)" and
      b2: "build_gluing_system ?p lr l1 = (Inr gr, l2)" and
      a: "assemble_global_system lr gr = Inr (A_opt, b_sheaf)"
      by blast
    from build_local_systems_two_patches [OF b1] obtain Ma Mb where
      m: "matrices lr = [Ma, Mb]" "cols Ma = 6" and
      w: "patch_n_weights lr = [(''block_a'', 6), (''block_b'', 4)]"
      by auto
    from build_gluing_system_dims [OF _ b2] w have
      "rows (A_gluing gr) = 1" "cols (A_gluing gr) = 10" by simp_all
    with m have "assemble_global_system lr gr = Inl OutOfBounds"
      by (intro assemble_block_too_wide) simp_all
    with a show ?thesis by simp
  qed
  then obtain e where e: "r = Inl e" by blast
  with f have "same_commit (new_learner v) l'" by (simp add: fit_Inl)
  then have "\<not> fitted l'" by (simp add: same_commit_def new_learner_def)
  then have "\<forall>u. predict u l' ''block_a'' V = Inl NotFitted" by (simp add: predict_unfitted)
  with f e show ?thesis by simp
qed

end
